theory Spec2Isabelle
  imports
    Complex_Main
    "HOL-Library.Multiset"
    "HOL-Library.Char_ord"
    "HOL-Library.Option_ord"
    "HOL-Library.List_Lexorder"
    "HOL-Library.Product_Lexorder"
begin

section \<open>Data model\<close>

text \<open>
  A pandas DataFrame is a list of rows, in index order; a row is a record of the columns
  the pipeline reads or writes. Every column is nullable: \<open>None\<close> is pandas' missing
  marker (NaN, NaT), and it is also the content of a column that does not exist yet
  (\<open>PrimaryKey\<close> before line 50 of \<^verbatim>\<open>01_import_deliverect.py\<close>, \<open>TempColumn\<close> outside
  lines 244-270).

  Text is a \<open>string\<close> holding the UTF-8 bytes of the Python \<open>str\<close>; concatenation,
  equality, literal replacement and the code-point order of Python agree with the same
  operations on these bytes. Amounts are exact rationals: the rounding of binary floating
  point is not part of the model, the missing value NaN is. The columns DeliveryType,
  PaymentType, IsTestOrder, PromotionsOnItems, DeliveryCost, Tip and TotalOrderAmount are
  only carried along; they are the field \<open>Others\<close>. The date and the time of day that
  lines 21-24 derive from the timestamp are taken as given.
\<close>

type_synonym date = "nat \<times> nat \<times> nat"

record 'x row =
  PrimaryKey :: "string option"
  OrderID :: "string option"
  Location :: "string option"
  LocWithBrand :: "string option"
  Brand :: "string option"
  Channel :: "string option"
  OrderPlacedDate :: "date option"
  OrderPlacedTime :: "nat option"
  OrderStatus :: "string option"
  GrossAOV :: "rat option"
  ProductPLU :: "string option"
  ProductName :: "string option"
  ItemPrice :: "rat option"
  ItemQuantities :: "rat option"
  TotalPrice :: "rat option"
  TempColumn :: "string option"
  Others :: 'x

datatype error = IndexError

section \<open>String operations of Python and pandas\<close>

text \<open>\<open>a + b\<close> on two string columns: missing as soon as one side is missing.\<close>

fun str_add :: "string option \<Rightarrow> string option \<Rightarrow> string option" where
  "str_add (Some a) (Some b) = Some (a @ b)"
| "str_add _ _ = None"

text \<open>\<open>str.replace(pat, repl)\<close> with a literal pattern: leftmost occurrences, not overlapping.\<close>

function str_replace :: "string \<Rightarrow> string \<Rightarrow> string \<Rightarrow> string" where
  "str_replace pat repl s =
     (if pat = [] then repl @ concat (map (\<lambda>c. c # repl) s)
      else if s = [] then []
      else if take (length pat) s = pat then repl @ str_replace pat repl (drop (length pat) s)
      else hd s # str_replace pat repl (tl s))"
  by pat_completeness auto
termination
  by (relation "measure (\<lambda>(pat, repl, s). length s)") auto

declare str_replace.simps [simp del]

definition ascii_lowercase :: string where
  "ascii_lowercase = ''abcdefghijklmnopqrstuvwxyz''"

definition ascii_uppercase :: string where
  "ascii_uppercase = ''ABCDEFGHIJKLMNOPQRSTUVWXYZ''"

definition lower_char :: "char \<Rightarrow> char" where
  "lower_char c = (case map_of (zip ascii_uppercase ascii_lowercase) c of Some l \<Rightarrow> l | None \<Rightarrow> c)"

definition upper_char :: "char \<Rightarrow> char" where
  "upper_char c = (case map_of (zip ascii_lowercase ascii_uppercase) c of Some u \<Rightarrow> u | None \<Rightarrow> c)"

definition is_cased :: "char \<Rightarrow> bool" where
  "is_cased c = (c \<in> set ascii_lowercase \<or> c \<in> set ascii_uppercase)"

text \<open>
  \<open>str.title()\<close> on ASCII text: a letter that follows a letter is lowered, any other letter
  is raised. Bytes outside ASCII are kept and count as uncased.
\<close>

fun title_from :: "bool \<Rightarrow> string \<Rightarrow> string" where
  "title_from prev [] = []"
| "title_from prev (c # cs) =
     (if is_cased c then (if prev then lower_char c else upper_char c) # title_from True cs
      else c # title_from False cs)"

definition str_title :: "string \<Rightarrow> string" where
  "str_title s = title_from False s"

text \<open>
  \<open>str.contains(pat, case=False)\<close> compiles the pattern with \<open>re.IGNORECASE\<close> and searches.
  For a pattern of lowercase ASCII letters a text character matches a pattern letter when
  it lowers to it; in addition the long s (U+017F, the bytes C5 BF) matches \<open>s\<close>.
\<close>

fun ci_char :: "char \<Rightarrow> string \<Rightarrow> string option" where
  "ci_char p [] = None"
| "ci_char p (c # cs) =
     (if lower_char c = p then Some cs
      else if p = CHR ''s'' \<and> c = CHR 0xC5
      then (case cs of [] \<Rightarrow> None | d # ds \<Rightarrow> if d = CHR 0xBF then Some ds else None)
      else None)"

fun ci_match_at :: "string \<Rightarrow> string \<Rightarrow> bool" where
  "ci_match_at [] s = True"
| "ci_match_at (p # ps) s = (case ci_char p s of None \<Rightarrow> False | Some rest \<Rightarrow> ci_match_at ps rest)"

fun ci_search :: "string \<Rightarrow> string \<Rightarrow> bool" where
  "ci_search pat [] = ci_match_at pat []"
| "ci_search pat (c # cs) = (ci_match_at pat (c # cs) \<or> ci_search pat cs)"

declare ci_search.simps [simp del] ci_match_at.simps [simp del] ci_char.simps [simp del]

text \<open>On a column: a missing value gives a missing result.\<close>

definition str_contains_nocase :: "string \<Rightarrow> string option \<Rightarrow> bool option" where
  "str_contains_nocase pat v = map_option (ci_search pat) v"

text \<open>
  \<open>np.where(cond, a, b)\<close> reads an object array of conditions by truth value, and the
  truth value of NaN is true.
\<close>

fun np_where :: "bool option \<Rightarrow> 'a \<Rightarrow> 'a \<Rightarrow> 'a" where
  "np_where (Some c) a b = (if c then a else b)"
| "np_where None a b = a"

text \<open>
  \<open>Series.str.split(n=1).str[0]\<close>: the first run of characters that are not white space
  (ASCII white space here; line 41 applies it to a brand that is one of two ASCII labels),
  missing when there is none.
\<close>

definition is_space :: "char \<Rightarrow> bool" where
  "is_space c = (c \<in> set [CHR '' '', CHR 0x09, CHR 0x0A, CHR 0x0B, CHR 0x0C, CHR 0x0D])"

definition split_first :: "string \<Rightarrow> string option" where
  "split_first s =
     (case dropWhile is_space s of [] \<Rightarrow> None | c # cs \<Rightarrow> Some (takeWhile (\<lambda>x. \<not> is_space x) (c # cs)))"

text \<open>\<open>astype(str)\<close> on the order identifier and on the date.\<close>

definition astype_str :: "string option \<Rightarrow> string" where
  "astype_str v = (case v of None \<Rightarrow> ''nan'' | Some s \<Rightarrow> s)"

function dec :: "nat \<Rightarrow> string" where
  "dec n = (if n < 10 then [''0123456789'' ! n] else dec (n div 10) @ [''0123456789'' ! (n mod 10)])"
  by pat_completeness auto
termination
  by (relation "measure id") auto

declare dec.simps [simp del]

definition zfill :: "nat \<Rightarrow> string \<Rightarrow> string" where
  "zfill w s = replicate (w - length s) CHR ''0'' @ s"

definition date_astype_str :: "date option \<Rightarrow> string" where
  "date_astype_str v =
     (case v of None \<Rightarrow> ''NaT''
      | Some (y, m, d) \<Rightarrow> zfill 4 (dec y) @ ''-'' @ zfill 2 (dec m) @ ''-'' @ zfill 2 (dec d))"

section \<open>Shared normalisation (\<^verbatim>\<open>process_deliverect_shared_data\<close>)\<close>

subsection \<open>Brand, lines 26-35\<close>

text \<open>Line 28: the text before the first comma, when the brand is a string with a comma.\<close>

definition brand_first :: "string option \<Rightarrow> string option" where
  "brand_first x =
     (case x of None \<Rightarrow> None
      | Some s \<Rightarrow> if CHR '','' \<in> set s then Some (takeWhile (\<lambda>c. c \<noteq> CHR '','') s) else Some s)"

text \<open>Line 32: a missing brand is inferred from the location.\<close>

definition brand_infer :: "string option \<Rightarrow> string option \<Rightarrow> string option" where
  "brand_infer loc b =
     (if b = None
      then np_where (str_contains_nocase ''beast'' loc) (Some ''Birria & the Beast'') (Some ''Birdie Birdie'')
      else b)"

text \<open>Line 35: the collapse to two labels.\<close>

definition brand_collapse :: "string option \<Rightarrow> string option" where
  "brand_collapse b = np_where (str_contains_nocase ''beast'' b) (Some ''Birria'') (Some ''Birdie'')"

definition normalize_Brand :: "'x row \<Rightarrow> 'x row" where
  "normalize_Brand r =
     (let r = r\<lparr>Brand := brand_first (Brand r)\<rparr>;
          r = r\<lparr>Brand := brand_infer (Location r) (Brand r)\<rparr>;
          r = r\<lparr>Brand := brand_collapse (Brand r)\<rparr>
      in r)"

subsection \<open>Location names (\<^verbatim>\<open>clean_location_names\<close> in \<^verbatim>\<open>shared_functions.py\<close>)\<close>

text \<open>
  The table of cleaned names is a file outside the repository; it is a parameter, the list
  of its (Location, Cleaned Name) pairs in file order. The left merge pairs a row with
  every entry of the table that has its location (a missing location with a missing one),
  and keeps an unmatched row once, with a missing cleaned name.
\<close>

type_synonym cleaned_names = "(string option \<times> string option) list"

definition o_umlaut :: string where
  "o_umlaut = [CHR 0xC3, CHR 0xB6]"

definition u_umlaut :: string where
  "u_umlaut = [CHR 0xC3, CHR 0xBC]"

definition merge_cleaned :: "cleaned_names \<Rightarrow> 'x row \<Rightarrow> (('x row) \<times> string option) list" where
  "merge_cleaned cleaned r =
     (case filter (\<lambda>e. fst e = Location r) cleaned of
        [] \<Rightarrow> [(r, None)]
      | m # ms \<Rightarrow> map (\<lambda>e. (r, snd e)) (m # ms))"

definition clean_location_names :: "cleaned_names \<Rightarrow> 'x row list \<Rightarrow> 'x row list" where
  "clean_location_names cleaned df =
     (let df = map (\<lambda>r. r\<lparr>Location :=
                   map_option (str_replace u_umlaut ''u'') (map_option (str_replace o_umlaut ''o'') (Location r))\<rparr>) df;
          merged = concat (map (merge_cleaned cleaned) df)
      in map (\<lambda>(r, cleaned_location). r\<lparr>Location := cleaned_location\<rparr>) merged)"

subsection \<open>The whole function\<close>

definition process_deliverect_shared_data :: "cleaned_names \<Rightarrow> 'x row list \<Rightarrow> 'x row list" where
  "process_deliverect_shared_data cleaned df =
     (let df = map (\<lambda>r. r\<lparr>OrderID := Some (''#'' @ astype_str (OrderID r))\<rparr>) df;
          df = map normalize_Brand df;
          df = clean_location_names cleaned df;
          df = map (\<lambda>r. r\<lparr>LocWithBrand :=
                 str_add (str_add (Location r) (Some '' - '')) (Option.bind (Brand r) split_first)\<rparr>) df;
          df = map (\<lambda>r. r\<lparr>Channel := map_option (str_replace ''TakeAway Com'' ''Lieferando'') (Channel r)\<rparr>) df;
          df = map (\<lambda>r. r\<lparr>OrderStatus :=
                 map_option str_title (map_option (str_replace ''_'' '' '') (OrderStatus r))\<rparr>) df;
          df = filter (\<lambda>r. OrderStatus r \<noteq> Some ''Duplicate'') df;
          df = map (\<lambda>r. r\<lparr>PrimaryKey :=
                 str_add (str_add (str_add (str_add (OrderID r) (Some '' - '')) (Location r)) (Some '' - ''))
                   (Some (date_astype_str (OrderPlacedDate r)))\<rparr>) df
      in df)"

section \<open>Order Deduplicator (\<^verbatim>\<open>process_deliverect_remove_duplicates\<close>)\<close>

definition custom_order :: "string list" where
  "custom_order =
     [''Delivered'', ''Auto Finalized'', ''In Delivery'', ''Ready For Pickup'', ''Prepared'',
      ''Preparing'', ''Accepted'', ''Deliverect Parsed'', ''New'', ''Scheduled'', ''Cancel'',
      ''Canceled'', ''Failed Resolved'', ''Failed'', ''Delivery Cancelled'', ''Manual Retry'',
      ''Failed Cancel'']"

text \<open>\<open>pd.Categorical(values, categories)\<close>: a value outside the categories becomes missing.\<close>

definition categorical :: "string list \<Rightarrow> string option \<Rightarrow> string option" where
  "categorical categories v =
     (case v of None \<Rightarrow> None | Some s \<Rightarrow> if s \<in> set categories then Some s else None)"

text \<open>
  The code of a categorical value is its position among the categories; a missing value
  sorts as the number of categories (\<open>na_position='last'\<close>).
\<close>

definition category_code :: "string list \<Rightarrow> string option \<Rightarrow> nat" where
  "category_code categories v =
     (case v of None \<Rightarrow> length categories | Some s \<Rightarrow> length (takeWhile (\<lambda>c. c \<noteq> s) categories))"

text \<open>The sort key of a nullable column: missing values last, the others by their own order.\<close>

definition na_last :: "'a option \<Rightarrow> nat \<times> 'a option" where
  "na_last v = (if v = None then 1 else 0, v)"

text \<open>\<open>drop_duplicates(subset, keep='first')\<close>; two missing keys count as equal.\<close>

fun drop_duplicates :: "('a \<Rightarrow> 'k) \<Rightarrow> 'a list \<Rightarrow> 'a list" where
  "drop_duplicates f [] = []"
| "drop_duplicates f (x # xs) = x # drop_duplicates f (filter (\<lambda>y. f y \<noteq> f x) xs)"

text \<open>
  \<open>sort_values\<close> on several columns is a stable lexicographic sort (\<open>sort_key\<close> is the
  stable insertion sort of the list library).
\<close>

definition status_code :: "'x row \<Rightarrow> nat" where
  "status_code r = category_code custom_order (OrderStatus r)"

definition dedup_key :: "'x row \<Rightarrow> (nat \<times> string option) \<times> nat" where
  "dedup_key r = (na_last (PrimaryKey r), status_code r)"

text \<open>Line 57 on one row.\<close>

definition as_categorical :: "'x row \<Rightarrow> 'x row" where
  "as_categorical r = r\<lparr>OrderStatus := categorical custom_order (OrderStatus r)\<rparr>"

definition process_deliverect_remove_duplicates :: "'x row list \<Rightarrow> 'x row list" where
  "process_deliverect_remove_duplicates df =
     (let df = map as_categorical df;
          df = sort_key dedup_key df;
          df = drop_duplicates PrimaryKey df;
          df = filter (\<lambda>r. OrderID r \<noteq> Some ''#nan'') df
      in df)"

text \<open>
  \<^verbatim>\<open>load_deliverect_order_data\<close>, as far as the rows and the columns PrimaryKey and
  OrderStatus go: the product names and the further timestamps it rewrites are read by
  nothing below.
\<close>

definition load_deliverect_order_data :: "cleaned_names \<Rightarrow> 'x row list \<Rightarrow> 'x row list" where
  "load_deliverect_order_data cleaned order_rows =
     process_deliverect_remove_duplicates (process_deliverect_shared_data cleaned order_rows)"

section \<open>Item Reconciler (\<^verbatim>\<open>load_deliverect_item_level_detail_data\<close>)\<close>

subsection \<open>Filter stage, lines 240-251\<close>

text \<open>
  \<open>clean_df\<close> is the order data cut down to (PrimaryKey, OrderStatus), every row marked
  \<open>'Orders'\<close> in TempColumn. The left merge on both columns pairs an item row with every
  row of \<open>clean_df\<close> that has its key and its status (missing values match each other); an
  unmatched item row is kept once with a missing TempColumn, and line 251 removes it.
\<close>

type_synonym clean_df = "(string option \<times> string option) list"

definition merge_orders :: "clean_df \<Rightarrow> 'x row \<Rightarrow> 'x row list" where
  "merge_orders clean r =
     (case filter (\<lambda>e. fst e = PrimaryKey r \<and> snd e = OrderStatus r) clean of
        [] \<Rightarrow> [r\<lparr>TempColumn := None\<rparr>]
      | m # ms \<Rightarrow> map (\<lambda>e. r\<lparr>TempColumn := Some ''Orders''\<rparr>) (m # ms))"

definition filter_stage :: "clean_df \<Rightarrow> 'x row list \<Rightarrow> 'x row list" where
  "filter_stage clean df =
     (let df = concat (map (merge_orders clean) df);
          df = filter (\<lambda>r. TempColumn r \<noteq> None) df
      in df)"

subsection \<open>Prices, lines 254-279\<close>

text \<open>
  Line 254 divides the unit price by 100. The two label columns of lines 255-256 are not
  among the columns line 270 keeps, and neither is TempColumn. Line 279 is the total of
  the row; a product with a missing factor is missing.
\<close>

fun mul_na :: "rat option \<Rightarrow> rat option \<Rightarrow> rat option" where
  "mul_na (Some a) (Some b) = Some (a * b)"
| "mul_na _ _ = None"

fun sub_na :: "rat option \<Rightarrow> rat option \<Rightarrow> rat option" where
  "sub_na (Some a) (Some b) = Some (a - b)"
| "sub_na _ _ = None"

definition price_stage :: "'x row list \<Rightarrow> 'x row list" where
  "price_stage df =
     (let df = map (\<lambda>r. r\<lparr>ItemPrice := map_option (\<lambda>p. p / 100) (ItemPrice r)\<rparr>) df;
          df = map (\<lambda>r. r\<lparr>TempColumn := None\<rparr>) df;
          df = map (\<lambda>r. r\<lparr>TotalPrice := mul_na (ItemPrice r) (ItemQuantities r)\<rparr>) df
      in df)"

subsection \<open>Aggregation, check and balancing records, lines 281-324\<close>

text \<open>\<open>series.iloc[0]\<close> raises IndexError on an empty series.\<close>

definition iloc0 :: "'a list \<Rightarrow> error + 'a" where
  "iloc0 xs = (case xs of [] \<Rightarrow> Inl IndexError | x # _ \<Rightarrow> Inr x)"

definition first_total_order_amount :: "rat option list \<Rightarrow> error + rat option" where
  "first_total_order_amount series = iloc0 series"

text \<open>A loop whose body may raise stops at the first error.\<close>

fun traverse :: "('a \<Rightarrow> error + 'b) \<Rightarrow> 'a list \<Rightarrow> error + 'b list" where
  "traverse f [] = Inr []"
| "traverse f (x # xs) =
     (case f x of Inl e \<Rightarrow> Inl e
      | Inr y \<Rightarrow> (case traverse f xs of Inl e \<Rightarrow> Inl e | Inr ys \<Rightarrow> Inr (y # ys)))"

text \<open>The \<open>sum\<close> of a group skips missing values; the sum of none is 0.\<close>

definition nansum :: "rat option list \<Rightarrow> rat" where
  "nansum vs = sum_list (map (\<lambda>v. case v of None \<Rightarrow> 0 | Some x \<Rightarrow> x) vs)"

text \<open>
  \<open>groupby('PrimaryKey')\<close>: one group for each key that is not missing, the groups in
  ascending order of the key, the rows of a group in the order of the table.
\<close>

definition group_keys :: "'x row list \<Rightarrow> string list" where
  "group_keys df = sort (remdups (List.map_filter PrimaryKey df))"

definition group_rows :: "'x row list \<Rightarrow> string \<Rightarrow> 'x row list" where
  "group_rows df k = filter (\<lambda>r. PrimaryKey r = Some k) df"

record consolidated =
  cons_PrimaryKey :: string
  cons_TotalPrice :: rat
  cons_GrossAOV :: "rat option"
  Check :: bool

text \<open>The two aggregates of line 290 for the group of one key.\<close>

definition group_total :: "'x row list \<Rightarrow> string \<Rightarrow> rat" where
  "group_total df k = nansum (map TotalPrice (group_rows df k))"

definition agg_group :: "'x row list \<Rightarrow> string \<Rightarrow> error + consolidated" where
  "agg_group df k =
     (case first_total_order_amount (map GrossAOV (group_rows df k)) of
        Inl e \<Rightarrow> Inl e
      | Inr g \<Rightarrow> Inr \<lparr>cons_PrimaryKey = k, cons_TotalPrice = group_total df k,
                     cons_GrossAOV = g, Check = False\<rparr>)"

text \<open>Lines 294-295; a comparison with a missing value is false.\<close>

definition within_tolerance :: "rat option \<Rightarrow> rat \<Rightarrow> bool" where
  "within_tolerance g t = (case g of None \<Rightarrow> False | Some x \<Rightarrow> \<bar>x - t\<bar> < 1 / 1000)"

definition consolidate :: "'x row list \<Rightarrow> error + consolidated list" where
  "consolidate df =
     (case traverse (agg_group df) (group_keys df) of
        Inl e \<Rightarrow> Inl e
      | Inr cs \<Rightarrow>
          (let cs = map (\<lambda>c. c\<lparr>Check := within_tolerance (cons_GrossAOV c) (cons_TotalPrice c)\<rparr>) cs;
               cs = filter (\<lambda>c. Check c = False) cs
           in Inr cs))"

text \<open>Lines 305-319, the body of the loop.\<close>

definition balancing_record :: "'x row \<Rightarrow> consolidated \<Rightarrow> 'x row" where
  "balancing_record matching_row c =
     \<lparr>PrimaryKey = Some (cons_PrimaryKey c),
      OrderID = OrderID matching_row,
      Location = Location matching_row,
      LocWithBrand = LocWithBrand matching_row,
      Brand = Brand matching_row,
      Channel = Channel matching_row,
      OrderPlacedDate = OrderPlacedDate matching_row,
      OrderPlacedTime = OrderPlacedTime matching_row,
      OrderStatus = OrderStatus matching_row,
      GrossAOV = GrossAOV matching_row,
      ProductPLU = Some ''x-xx-xxx-x'',
      ProductName = Some ''Balancing Item'',
      ItemPrice = sub_na (cons_GrossAOV c) (Some (cons_TotalPrice c)),
      ItemQuantities = Some 1,
      TotalPrice = sub_na (cons_GrossAOV c) (Some (cons_TotalPrice c)),
      TempColumn = None,
      Others = Others matching_row\<rparr>"

definition new_record :: "'x row list \<Rightarrow> consolidated \<Rightarrow> error + 'x row" where
  "new_record df c =
     (case iloc0 (filter (\<lambda>r. PrimaryKey r = Some (cons_PrimaryKey c)) df) of
        Inl e \<Rightarrow> Inl e
      | Inr matching_row \<Rightarrow> Inr (balancing_record matching_row c))"

definition new_records :: "'x row list \<Rightarrow> error + 'x row list" where
  "new_records df =
     (case consolidate df of Inl e \<Rightarrow> Inl e | Inr cs \<Rightarrow> traverse (new_record df) cs)"

subsection \<open>Final ordering, lines 326-330\<close>

definition final_key :: "'x row \<Rightarrow> (nat \<times> date option) \<times> (nat \<times> nat option) \<times> (nat \<times> string option)" where
  "final_key r = (na_last (OrderPlacedDate r), na_last (OrderPlacedTime r), na_last (PrimaryKey r))"

definition final_sort :: "'x row list \<Rightarrow> 'x row list" where
  "final_sort df = sort_key final_key df"

text \<open>Lines 281-330 on the table that line 279 leaves.\<close>

definition balance_stage :: "'x row list \<Rightarrow> error + 'x row list" where
  "balance_stage df =
     (case new_records df of Inl e \<Rightarrow> Inl e | Inr recs \<Rightarrow> Inr (final_sort (df @ recs)))"

text \<open>
  The GrossAOV that the aggregation takes for a group, the one of its first row; missing
  when that value is missing (a key without rows has no group).
\<close>

definition group_gross :: "'x row list \<Rightarrow> string \<Rightarrow> rat option" where
  "group_gross df k = (case group_rows df k of [] \<Rightarrow> None | r # _ \<Rightarrow> GrossAOV r)"

text \<open>
  The row of \<open>consolidated_df\<close> for one key and the keys that fail the check, written
  without the error branch of \<open>iloc\<close>; the lemmas below show that \<open>consolidate\<close> computes
  exactly these.
\<close>

definition cons_of :: "'x row list \<Rightarrow> string \<Rightarrow> consolidated" where
  "cons_of df k = \<lparr>cons_PrimaryKey = k, cons_TotalPrice = group_total df k,
      cons_GrossAOV = group_gross df k,
      Check = within_tolerance (group_gross df k) (group_total df k)\<rparr>"

definition imbalanced_keys :: "'x row list \<Rightarrow> string list" where
  "imbalanced_keys df =
     filter (\<lambda>k. \<not> within_tolerance (group_gross df k) (group_total df k)) (group_keys df)"

text \<open>The list that the loop of lines 304-321 builds, when no \<open>iloc\<close> fails.\<close>

definition balancing_records :: "'x row list \<Rightarrow> 'x row list" where
  "balancing_records df =
     map (\<lambda>k. balancing_record (hd (group_rows df k)) (cons_of df k)) (imbalanced_keys df)"

subsection \<open>The whole function\<close>

text \<open>Lines 240-330: the reconciler proper, on the normalised item rows and \<open>clean_df\<close>.\<close>

definition reconcile :: "clean_df \<Rightarrow> 'x row list \<Rightarrow> error + 'x row list" where
  "reconcile clean df =
     (let df = filter_stage clean df;
          df = price_stage df
      in balance_stage df)"

definition load_deliverect_item_level_detail_data ::
  "cleaned_names \<Rightarrow> 'x row list \<Rightarrow> 'x row list \<Rightarrow> error + 'x row list" where
  "load_deliverect_item_level_detail_data cleaned item_rows order_rows =
     (let df = process_deliverect_shared_data cleaned item_rows;
          clean_df = map (\<lambda>r. (PrimaryKey r, OrderStatus r)) (load_deliverect_order_data cleaned order_rows)
      in reconcile clean_df df)"

section \<open>Example rows\<close>

text \<open>A row with every column missing; the examples below fill in what they need.\<close>

definition row0 :: "unit row" where
  "row0 = \<lparr>PrimaryKey = None, OrderID = None, Location = None, LocWithBrand = None, Brand = None,
     Channel = None, OrderPlacedDate = None, OrderPlacedTime = None, OrderStatus = None, GrossAOV = None,
     ProductPLU = None, ProductName = None, ItemPrice = None, ItemQuantities = None, TotalPrice = None,
     TempColumn = None, Others = ()\<rparr>"

text \<open>Two order rows that share the key \<open>X\<close>, with the statuses New and Delivered.\<close>

definition order_new :: "unit row" where
  "order_new = row0\<lparr>PrimaryKey := Some ''X'', OrderID := Some ''#1'', OrderStatus := Some ''New''\<rparr>"

definition order_delivered :: "unit row" where
  "order_delivered = row0\<lparr>PrimaryKey := Some ''X'', OrderID := Some ''#1'', OrderStatus := Some ''Delivered''\<rparr>"

text \<open>
  Two raw order rows without an order identifier, the same location and date, with the
  statuses Cancelled and Delivered; and a table of cleaned names that knows the location.
\<close>

definition raw_cancelled :: "unit row" where
  "raw_cancelled = row0\<lparr>Location := Some ''Berlin'', OrderStatus := Some ''CANCELLED'',
     OrderPlacedDate := Some (2023, 1, 5)\<rparr>"

definition raw_delivered :: "unit row" where
  "raw_delivered = row0\<lparr>Location := Some ''Berlin'', OrderStatus := Some ''DELIVERED'',
     OrderPlacedDate := Some (2023, 1, 5)\<rparr>"

definition berlin_names :: cleaned_names where
  "berlin_names = [(Some ''Berlin'', Some ''Berlin'')]"

text \<open>
  A table of cleaned names with one entry, and two raw rows: the location of the first
  differs from the entry by an umlaut, the location of the second is unknown to the table.
\<close>

definition koln_names :: cleaned_names where
  "koln_names = [(Some ''Koln'', Some ''Cologne'')]"

definition raw_koln :: "unit row" where
  "raw_koln = row0\<lparr>OrderID := Some ''1'', Location := Some (''K'' @ o_umlaut @ ''ln''),
     OrderStatus := Some ''NEW'', OrderPlacedDate := Some (2023, 1, 5)\<rparr>"

definition raw_hamburg :: "unit row" where
  "raw_hamburg = row0\<lparr>OrderID := Some ''1'', Location := Some ''Hamburg'',
     OrderStatus := Some ''NEW'', OrderPlacedDate := Some (2023, 1, 5)\<rparr>"


text \<open>
  The scenario of the specification: two item rows of the order with the key \<open>A\<close>, unit
  prices of 500 and 300 minor units, quantities 2 and 1, and a GrossAOV of 10; the order
  survived deduplication with the status Delivered.
\<close>

definition item_burger :: "unit row" where
  "item_burger = row0\<lparr>PrimaryKey := Some ''A'', OrderID := Some ''#7'',
     OrderPlacedDate := Some (2023, 1, 5), OrderPlacedTime := Some 43200,
     OrderStatus := Some ''Delivered'', GrossAOV := Some 10, ProductName := Some ''Burger'',
     ItemPrice := Some 500, ItemQuantities := Some 2\<rparr>"

definition item_fries :: "unit row" where
  "item_fries = item_burger\<lparr>ProductName := Some ''Fries'', ItemPrice := Some 300, ItemQuantities := Some 1\<rparr>"

definition scenario_orders :: clean_df where
  "scenario_orders = [(Some ''A'', Some ''Delivered'')]"

text \<open>The two rows after the price stage, and the balancing record of the scenario.\<close>

definition priced_burger :: "unit row" where
  "priced_burger = item_burger\<lparr>ItemPrice := Some 5, TotalPrice := Some 10\<rparr>"

definition priced_fries :: "unit row" where
  "priced_fries = item_fries\<lparr>ItemPrice := Some 3, TotalPrice := Some 3\<rparr>"

definition scenario_balancing :: "unit row" where
  "scenario_balancing = item_burger\<lparr>ProductPLU := Some ''x-xx-xxx-x'', ProductName := Some ''Balancing Item'',
     ItemPrice := Some (- 3), ItemQuantities := Some 1, TotalPrice := Some (- 3)\<rparr>"

text \<open>
  The first row with its GrossAOV missing, and the balancing record that it gets.
\<close>

definition no_gross_burger :: "unit row" where
  "no_gross_burger = priced_burger\<lparr>GrossAOV := None\<rparr>"

definition no_gross_balancing :: "unit row" where
  "no_gross_balancing = no_gross_burger\<lparr>ProductPLU := Some ''x-xx-xxx-x'',
     ProductName := Some ''Balancing Item'', ItemPrice := None, ItemQuantities := Some 1,
     TotalPrice := None\<rparr>"

text \<open>
  An item row of the same order with the status New; the second item row with a GrossAOV
  of 7; an order row for the key \<open>A\<close> with a GrossAOV of 12.
\<close>

definition new_burger :: "unit row" where
  "new_burger = item_burger\<lparr>OrderStatus := Some ''New''\<rparr>"

definition cheap_fries :: "unit row" where
  "cheap_fries = item_fries\<lparr>GrossAOV := Some 7\<rparr>"

definition order_a :: "unit row" where
  "order_a = row0\<lparr>PrimaryKey := Some ''A'', OrderID := Some ''#7'', OrderStatus := Some ''Delivered'',
     GrossAOV := Some 12\<rparr>"

text \<open>
  The two item rows with a GrossAOV of 13, which their totals meet, before and after the
  price stage.
\<close>

definition tied_burger :: "unit row" where
  "tied_burger = item_burger\<lparr>GrossAOV := Some 13\<rparr>"

definition tied_fries :: "unit row" where
  "tied_fries = item_fries\<lparr>GrossAOV := Some 13\<rparr>"

definition tied_priced_burger :: "unit row" where
  "tied_priced_burger = priced_burger\<lparr>GrossAOV := Some 13\<rparr>"

definition tied_priced_fries :: "unit row" where
  "tied_priced_fries = priced_fries\<lparr>GrossAOV := Some 13\<rparr>"


text \<open>
  The first priced row with its PrimaryKey missing (a row of an unknown location). The
  second priced row with a GrossAOV of 7, and the balancing record that the group gets
  when that row stands first.
\<close>

definition no_key_burger :: "unit row" where
  "no_key_burger = priced_burger\<lparr>PrimaryKey := None\<rparr>"

definition cheap_priced_fries :: "unit row" where
  "cheap_priced_fries = priced_fries\<lparr>GrossAOV := Some 7\<rparr>"

definition cheap_balancing :: "unit row" where
  "cheap_balancing = cheap_fries\<lparr>ProductPLU := Some ''x-xx-xxx-x'', ProductName := Some ''Balancing Item'',
     ItemPrice := Some (- 6), ItemQuantities := Some 1, TotalPrice := Some (- 6)\<rparr>"

section \<open>Lemmas on the brand\<close>

lemma beast_labels:
  "ci_search ''beast'' ''Birria & the Beast''" "\<not> ci_search ''beast'' ''Birdie Birdie''"
  by code_simp+

lemma brand_first_Some:
  "brand_first (Some b) = Some (takeWhile (\<lambda>c. c \<noteq> CHR '','') b)"
proof (cases "CHR '','' \<in> set b")
  case True
  then show ?thesis by (simp add: brand_first_def)
next
  case False
  then have eq: "takeWhile (\<lambda>c. c \<noteq> CHR '','') b = b"
    by (intro takeWhile_eq_all_conv [THEN iffD2]) auto
  show ?thesis by (simp add: brand_first_def False eq)
qed

lemma Brand_normalize_Some:
  "Brand r = Some b \<Longrightarrow>
   Brand (normalize_Brand r) =
     Some (if ci_search ''beast'' (takeWhile (\<lambda>c. c \<noteq> CHR '','') b) then ''Birria'' else ''Birdie'')"
  unfolding normalize_Brand_def Let_def
  by (simp add: brand_first_Some brand_infer_def brand_collapse_def str_contains_nocase_def)

lemma Brand_normalize_None:
  "Brand r = None \<Longrightarrow> Location r = Some l \<Longrightarrow>
   Brand (normalize_Brand r) = Some (if ci_search ''beast'' l then ''Birria'' else ''Birdie'')"
  by (simp add: normalize_Brand_def brand_first_def brand_infer_def brand_collapse_def
      str_contains_nocase_def beast_labels)

lemma Brand_normalize_range:
  "Brand (normalize_Brand r) \<in> {Some ''Birria'', Some ''Birdie''}"
proof -
  have "brand_collapse v \<in> {Some ''Birria'', Some ''Birdie''}" for v
    by (cases "str_contains_nocase ''beast'' v") (auto simp: brand_collapse_def)
  then show ?thesis by (simp add: normalize_Brand_def)
qed

lemma merge_cleaned_fst: "p \<in> set (merge_cleaned cleaned r) \<Longrightarrow> fst p = r"
  by (cases "filter (\<lambda>e. fst e = Location r) cleaned") (auto simp: merge_cleaned_def)

lemma clean_location_names_Brand:
  assumes "r' \<in> set (clean_location_names cleaned df)"
  shows "\<exists>r\<in>set df. Brand r' = Brand r"
proof -
  from assms obtain r p where r: "r \<in> set df"
    and p: "p \<in> set (merge_cleaned cleaned (r\<lparr>Location :=
        map_option (str_replace u_umlaut ''u'') (map_option (str_replace o_umlaut ''o'') (Location r))\<rparr>))"
    and r': "r' = (fst p)\<lparr>Location := snd p\<rparr>"
    by (auto simp: clean_location_names_def)
  from merge_cleaned_fst [OF p] r' have "Brand r' = Brand r" by simp
  with r show ?thesis by blast
qed

lemma shared_data_Brand:
  assumes "r' \<in> set (process_deliverect_shared_data cleaned df)"
  shows "\<exists>r\<in>set df. Brand r' = Brand (normalize_Brand r)"
proof -
  let ?df1 = "map normalize_Brand (map (\<lambda>r. r\<lparr>OrderID := Some (''#'' @ astype_str (OrderID r))\<rparr>) df)"
  from assms obtain r1 where "r1 \<in> set (clean_location_names cleaned ?df1)" "Brand r' = Brand r1"
    by (auto simp: process_deliverect_shared_data_def)
  with clean_location_names_Brand [of r1 cleaned ?df1] obtain r2 where
    "r2 \<in> set ?df1" "Brand r' = Brand r2"
    by auto
  then obtain r where r: "r \<in> set df"
    and eq: "Brand r' = Brand (normalize_Brand (r\<lparr>OrderID := Some (''#'' @ astype_str (OrderID r))\<rparr>))"
    by auto
  have "Brand (normalize_Brand (r\<lparr>OrderID := v\<rparr>)) = Brand (normalize_Brand r)" for v
    by (simp add: normalize_Brand_def)
  with r eq show ?thesis by auto
qed

section \<open>The deduplicator\<close>

lemma set_drop_duplicates: "set (drop_duplicates f xs) \<subseteq> set xs"
  by (induction f xs rule: drop_duplicates.induct) auto

lemma distinct_drop_duplicates: "distinct (map f (drop_duplicates f xs))"
proof (induction f xs rule: drop_duplicates.induct)
  case (1 f)
  then show ?case by simp
next
  case (2 f x xs)
  have "f x \<notin> f ` set (drop_duplicates f (filter (\<lambda>y. f y \<noteq> f x) xs))"
    using set_drop_duplicates [of f "filter (\<lambda>y. f y \<noteq> f x) xs"] by auto
  with 2 show ?case by simp
qed

lemma filter_drop_duplicates:
  "filter (\<lambda>y. f y = k) (drop_duplicates f xs) = take 1 (filter (\<lambda>y. f y = k) xs)"
proof (induction f xs rule: drop_duplicates.induct)
  case (1 f)
  then show ?case by simp
next
  case (2 f x xs)
  show ?case
  proof (cases "f x = k")
    case True
    then have "filter (\<lambda>y. f y = k) (filter (\<lambda>y. f y \<noteq> f x) xs) = []"
      by (auto simp: filter_empty_conv)
    with 2 True show ?thesis by simp
  next
    case False
    then have "filter (\<lambda>y. f y = k) (filter (\<lambda>y. f y \<noteq> f x) xs) = filter (\<lambda>y. f y = k) xs"
      by (auto intro: filter_cong)
    with 2 False show ?thesis by simp
  qed
qed

lemma distinct_map_filter_single:
  "distinct (map f xs) \<Longrightarrow> x \<in> set xs \<Longrightarrow> filter (\<lambda>y. f y = f x) xs = [x]"
proof (induction xs)
  case Nil
  then show ?case by simp
next
  case (Cons a xs)
  show ?case
  proof (cases "a = x")
    case True
    with Cons.prems have "f x \<notin> f ` set xs" by simp
    then have "\<forall>y\<in>set xs. f y \<noteq> f x" by (metis image_eqI)
    then have "filter (\<lambda>y. f y = f x) xs = []"
      by (simp add: filter_empty_conv)
    with True show ?thesis by simp
  next
    case False
    with Cons.prems have "x \<in> set xs" "f a \<noteq> f x" by auto
    with Cons show ?thesis by simp
  qed
qed

lemma dedup_distinct: "distinct (map PrimaryKey (process_deliverect_remove_duplicates df))"
  unfolding process_deliverect_remove_duplicates_def Let_def
  by (intro distinct_map_filter distinct_drop_duplicates)

lemma category_code_categorical:
  "category_code cs (categorical cs v) = category_code cs v"
proof (cases v)
  case None
  then show ?thesis by (simp add: categorical_def)
next
  case (Some s)
  show ?thesis
  proof (cases "s \<in> set cs")
    case True
    with Some show ?thesis by (simp add: categorical_def)
  next
    case False
    then have eq: "takeWhile (\<lambda>c. c \<noteq> s) cs = cs"
      by (intro takeWhile_eq_all_conv [THEN iffD2]) auto
    show ?thesis by (simp add: categorical_def category_code_def Some False eq)
  qed
qed

lemma insort_key_pair_const:
  "\<forall>y\<in>set ys. f y = (c, h y) \<Longrightarrow> f x = (c, h x) \<Longrightarrow> insort_key f x ys = insort_key h x ys"
  by (induction ys) auto

lemma sort_key_pair_const:
  "\<forall>y\<in>set xs. f y = (c, h y) \<Longrightarrow> sort_key f xs = sort_key h xs"
proof (induction xs)
  case Nil
  then show ?case by simp
next
  case (Cons x xs)
  then have "\<forall>y\<in>set (sort_key h xs). f y = (c, h y)" "f x = (c, h x)" by simp_all
  then have "insort_key f x (sort_key h xs) = insort_key h x (sort_key h xs)"
    by (rule insort_key_pair_const)
  with Cons show ?case by simp
qed

lemma sort_key_head:
  "g \<noteq> [] \<Longrightarrow>
   \<exists>pre b post. g = pre @ b # post \<and> (\<forall>x\<in>set pre. h b < h x) \<and> (\<forall>x\<in>set post. h b \<le> h x) \<and>
     take 1 (sort_key h g) = [b]"
proof (induction g)
  case Nil
  then show ?case by simp
next
  case (Cons x xs)
  show ?case
  proof (cases "xs = []")
    case True
    then have "x # xs = [] @ x # [] \<and> (\<forall>y\<in>set []. h x < h y) \<and> (\<forall>y\<in>set []. h x \<le> h y) \<and>
        take 1 (sort_key h (x # xs)) = [x]"
      by simp
    then show ?thesis by blast
  next
    case False
    with Cons.IH obtain pre b post where
      xs: "xs = pre @ b # post" and pre: "\<forall>y\<in>set pre. h b < h y" and post: "\<forall>y\<in>set post. h b \<le> h y"
      and hd: "take 1 (sort_key h xs) = [b]"
      by blast
    from hd obtain rest where sorted_xs: "sort_key h xs = b # rest"
      by (cases "sort_key h xs") auto
    show ?thesis
    proof (cases "h x \<le> h b")
      case True
      with xs pre post have "\<forall>y\<in>set xs. h x \<le> h y" by force
      moreover from True sorted_xs have "take 1 (sort_key h (x # xs)) = [x]" by simp
      ultimately have "x # xs = [] @ x # xs \<and> (\<forall>y\<in>set []. h x < h y) \<and> (\<forall>y\<in>set xs. h x \<le> h y) \<and>
          take 1 (sort_key h (x # xs)) = [x]"
        by simp
      then show ?thesis by blast
    next
      case False
      with sorted_xs have "take 1 (sort_key h (x # xs)) = [b]" by simp
      with False xs pre post have "x # xs = (x # pre) @ b # post \<and> (\<forall>y\<in>set (x # pre). h b < h y) \<and>
          (\<forall>y\<in>set post. h b \<le> h y) \<and> take 1 (sort_key h (x # xs)) = [b]"
        by simp
      then show ?thesis by blast
    qed
  qed
qed

lemma dedup_group:
  "filter (\<lambda>x. PrimaryKey x = k) (process_deliverect_remove_duplicates df) =
   filter (\<lambda>r. OrderID r \<noteq> Some ''#nan'')
     (take 1 (sort_key status_code
        (filter (\<lambda>x. PrimaryKey x = k) (map as_categorical df))))"
proof -
  let ?df = "map as_categorical df"
  let ?g = "filter (\<lambda>x. PrimaryKey x = k) ?df"
  have "\<forall>y\<in>set ?g. dedup_key y = (na_last k, status_code y)"
    by (simp add: dedup_key_def)
  then have "sort_key dedup_key ?g = sort_key status_code ?g"
    by (rule sort_key_pair_const)
  then have sorted_group: "filter (\<lambda>x. PrimaryKey x = k) (sort_key dedup_key ?df) =
      sort_key status_code ?g"
    by (simp add: filter_sort)
  have "process_deliverect_remove_duplicates df =
      filter (\<lambda>r. OrderID r \<noteq> Some ''#nan'') (drop_duplicates PrimaryKey (sort_key dedup_key ?df))"
    by (simp add: process_deliverect_remove_duplicates_def)
  then have "filter (\<lambda>x. PrimaryKey x = k) (process_deliverect_remove_duplicates df) =
      filter (\<lambda>r. OrderID r \<noteq> Some ''#nan'')
        (filter (\<lambda>x. PrimaryKey x = k) (drop_duplicates PrimaryKey (sort_key dedup_key ?df)))"
    by (simp add: conj_commute)
  also have "filter (\<lambda>x. PrimaryKey x = k) (drop_duplicates PrimaryKey (sort_key dedup_key ?df)) =
      take 1 (filter (\<lambda>x. PrimaryKey x = k) (sort_key dedup_key ?df))"
    by (rule filter_drop_duplicates)
  finally show ?thesis
    by (simp only: sorted_group)
qed

lemma status_code_as_categorical: "status_code (as_categorical r) = status_code r"
  by (simp add: status_code_def as_categorical_def category_code_categorical)

lemma status_values:
  "categorical custom_order (Some ''Delivered'') = Some ''Delivered''"
  "categorical custom_order (Some ''Cancelled'') = None"
  "category_code custom_order (Some ''Delivered'') = 0"
  "category_code custom_order None = 17"
  by code_simp+

lemma as_categorical_delivered:
  "OrderStatus r = Some ''Delivered'' \<Longrightarrow> as_categorical r = r"
  by (simp add: as_categorical_def status_values)

lemma dedup_cancelled_delivered:
  assumes "PrimaryKey r1 = PrimaryKey r2" "OrderStatus r1 = Some ''Cancelled''"
    "OrderStatus r2 = Some ''Delivered''" "OrderID r2 \<noteq> Some ''#nan''"
  shows "process_deliverect_remove_duplicates [r1, r2] = [r2]"
    and "process_deliverect_remove_duplicates [r2, r1] = [r2]"
proof -
  have c2: "as_categorical r2 = r2"
    using assms(3) by (rule as_categorical_delivered)
  have k1: "dedup_key (as_categorical r1) = (na_last (PrimaryKey r2), 17)"
    using assms(1,2) by (simp add: dedup_key_def status_code_def as_categorical_def status_values)
  have k2: "dedup_key r2 = (na_last (PrimaryKey r2), 0)"
    using assms(3) by (simp add: dedup_key_def status_code_def status_values)
  have pk: "PrimaryKey (as_categorical r1) = PrimaryKey r2"
    using assms(1) by (simp add: as_categorical_def)
  show "process_deliverect_remove_duplicates [r1, r2] = [r2]"
    using assms(4) by (simp add: process_deliverect_remove_duplicates_def c2 k1 k2 pk)
  show "process_deliverect_remove_duplicates [r2, r1] = [r2]"
    using assms(4) by (simp add: process_deliverect_remove_duplicates_def c2 k1 k2 pk)
qed


section \<open>Locations without a cleaned name\<close>

lemma clean_location_names_append:
  "clean_location_names cleaned (xs @ ys) = clean_location_names cleaned xs @ clean_location_names cleaned ys"
  by (simp add: clean_location_names_def)

lemma shared_data_append:
  "process_deliverect_shared_data cleaned (xs @ ys) =
   process_deliverect_shared_data cleaned xs @ process_deliverect_shared_data cleaned ys"
  by (simp add: process_deliverect_shared_data_def clean_location_names_append)

lemma clean_location_names_unmatched:
  assumes "\<forall>e\<in>set cleaned. fst e \<noteq>
      map_option (str_replace u_umlaut ''u'') (map_option (str_replace o_umlaut ''o'') (Location r))"
  shows "clean_location_names cleaned [r] = [r\<lparr>Location := None\<rparr>]"
proof -
  let ?l = "map_option (str_replace u_umlaut ''u'') (map_option (str_replace o_umlaut ''o'') (Location r))"
  from assms have "filter (\<lambda>e. fst e = ?l) cleaned = []"
    by (simp add: filter_empty_conv)
  then show ?thesis
    by (simp add: clean_location_names_def merge_cleaned_def)
qed

lemma shared_data_unmatched:
  assumes "\<forall>e\<in>set cleaned. fst e \<noteq>
      map_option (str_replace u_umlaut ''u'') (map_option (str_replace o_umlaut ''o'') (Location r))"
  shows "\<exists>rs. process_deliverect_shared_data cleaned [r] = rs \<and>
     length rs = (if map_option str_title (map_option (str_replace ''_'' '' '') (OrderStatus r)) = Some ''Duplicate''
                  then 0 else 1) \<and>
     (\<forall>r'\<in>set rs. Location r' = None \<and> PrimaryKey r' = None)"
proof -
  have loc: "Location (normalize_Brand x) = Location x" for x :: "'a row"
    by (simp add: normalize_Brand_def)
  have st: "OrderStatus (normalize_Brand x) = OrderStatus x" for x :: "'a row"
    by (simp add: normalize_Brand_def)
  have "clean_location_names cleaned [normalize_Brand (r\<lparr>OrderID := Some (''#'' @ astype_str (OrderID r))\<rparr>)] =
      [(normalize_Brand (r\<lparr>OrderID := Some (''#'' @ astype_str (OrderID r))\<rparr>))\<lparr>Location := None\<rparr>]"
    using assms by (intro clean_location_names_unmatched) (simp add: loc)
  then show ?thesis
    by (simp add: process_deliverect_shared_data_def st)
qed

lemma dedup_null_key:
  "length (filter (\<lambda>r. PrimaryKey r = None) (process_deliverect_remove_duplicates df)) \<le> 1"
proof -
  let ?g = "sort_key status_code (filter (\<lambda>r. PrimaryKey r = None) (map as_categorical df))"
  have "length (filter (\<lambda>r. OrderID r \<noteq> Some ''#nan'') (take 1 ?g)) \<le> length (take 1 ?g)"
    by (rule length_filter_le)
  also have "\<dots> \<le> 1" by simp
  finally show ?thesis by (simp only: dedup_group)
qed


section \<open>Aggregation and balancing\<close>

lemma set_group_keys: "set (group_keys df) = {k. Some k \<in> PrimaryKey ` set df}"
proof -
  have "set (List.map_filter PrimaryKey df) = {k. Some k \<in> PrimaryKey ` set df}"
  proof (induction df)
    case Nil
    then show ?case by (simp add: List.map_filter_simps)
  next
    case (Cons r df)
    then show ?case
      by (cases "PrimaryKey r") (auto simp: List.map_filter_simps)
  qed
  then show ?thesis by (simp add: group_keys_def)
qed

lemma distinct_group_keys: "distinct (group_keys df)"
  by (simp add: group_keys_def)

lemma group_rows_nonempty: "k \<in> set (group_keys df) \<Longrightarrow> group_rows df k \<noteq> []"
  by (auto simp: set_group_keys group_rows_def filter_empty_conv)

lemma traverse_Inr:
  "\<forall>x\<in>set xs. f x = Inr (g x) \<Longrightarrow> traverse f xs = Inr (map g xs)"
  by (induction xs) auto

lemma agg_group_Inr:
  "group_rows df k \<noteq> [] \<Longrightarrow>
   agg_group df k = Inr \<lparr>cons_PrimaryKey = k, cons_TotalPrice = group_total df k,
      cons_GrossAOV = group_gross df k, Check = False\<rparr>"
  by (cases "group_rows df k")
    (simp_all add: agg_group_def first_total_order_amount_def iloc0_def group_gross_def)

lemma consolidate_Inr:
  "consolidate df = Inr (map (cons_of df) (imbalanced_keys df))"
proof -
  have "traverse (agg_group df) (group_keys df) =
      Inr (map (\<lambda>k. \<lparr>cons_PrimaryKey = k, cons_TotalPrice = group_total df k,
        cons_GrossAOV = group_gross df k, Check = False\<rparr>) (group_keys df))"
    by (intro traverse_Inr) (simp add: agg_group_Inr group_rows_nonempty)
  then show ?thesis
    by (simp add: consolidate_def imbalanced_keys_def cons_of_def filter_map comp_def)
qed

lemma new_record_Inr:
  "group_rows df k \<noteq> [] \<Longrightarrow>
   new_record df (cons_of df k) = Inr (balancing_record (hd (group_rows df k)) (cons_of df k))"
  by (cases "group_rows df k") (simp_all add: new_record_def iloc0_def group_rows_def cons_of_def)

lemma new_records_Inr: "new_records df = Inr (balancing_records df)"
proof -
  have "traverse (new_record df) (map (cons_of df) (imbalanced_keys df)) =
      Inr (map (\<lambda>c. balancing_record (hd (group_rows df (cons_PrimaryKey c))) c)
        (map (cons_of df) (imbalanced_keys df)))"
  proof (intro traverse_Inr ballI)
    fix c
    assume "c \<in> set (map (cons_of df) (imbalanced_keys df))"
    then obtain k where k: "k \<in> set (group_keys df)" and c: "c = cons_of df k"
      by (auto simp: imbalanced_keys_def)
    have pk: "cons_PrimaryKey (cons_of df k) = k"
      by (simp add: cons_of_def)
    from k show "new_record df c = Inr (balancing_record (hd (group_rows df (cons_PrimaryKey c))) c)"
      by (simp add: c pk new_record_Inr group_rows_nonempty)
  qed
  then show ?thesis
    by (simp add: new_records_def consolidate_Inr comp_def cons_of_def balancing_records_def)
qed


lemma imbalanced_keys_subset: "set (imbalanced_keys df) \<subseteq> set (group_keys df)"
  by (auto simp: imbalanced_keys_def)

lemma distinct_imbalanced_keys: "distinct (imbalanced_keys df)"
  by (simp add: imbalanced_keys_def distinct_group_keys)

lemma PrimaryKey_balancing_record:
  "PrimaryKey (balancing_record m (cons_of df k)) = Some k"
  by (simp add: balancing_record_def cons_of_def)

lemma filter_map_keyed:
  "distinct ks \<Longrightarrow> (\<And>x. key (f x) = Some x) \<Longrightarrow>
   filter (\<lambda>r. key r = Some k) (map f ks) = (if k \<in> set ks then [f k] else [])"
proof (induction ks)
  case Nil
  then show ?case by simp
next
  case (Cons a ks)
  show ?case
  proof (cases "a = k")
    case True
    with Cons.prems(1) have "k \<notin> set ks" by simp
    with Cons True show ?thesis by simp
  next
    case False
    with Cons show ?thesis by simp
  qed
qed

lemma group_rows_new_records:
  "group_rows (balancing_records df) k =
   (if k \<in> set (imbalanced_keys df) then [balancing_record (hd (group_rows df k)) (cons_of df k)] else [])"
  unfolding group_rows_def balancing_records_def
  by (rule filter_map_keyed) (simp_all add: distinct_imbalanced_keys PrimaryKey_balancing_record)

lemma nansum_append: "nansum (xs @ ys) = nansum xs + nansum ys"
  by (simp add: nansum_def)

lemma group_total_append: "group_total (xs @ ys) k = group_total xs k + group_total ys k"
  by (simp add: group_total_def group_rows_def nansum_append)

lemma nansum_mset: "mset xs = mset ys \<Longrightarrow> nansum xs = nansum ys"
proof -
  assume "mset xs = mset ys"
  then have "mset (map (\<lambda>v. case v of None \<Rightarrow> 0 | Some x \<Rightarrow> x) xs) =
      mset (map (\<lambda>v. case v of None \<Rightarrow> (0::rat) | Some x \<Rightarrow> x) ys)"
    by (metis mset_map)
  then show ?thesis
    unfolding nansum_def by (metis sum_mset_sum_list)
qed

lemma group_total_final_sort: "group_total (final_sort df) k = group_total df k"
proof -
  have "mset (map TotalPrice (group_rows (final_sort df) k)) = mset (map TotalPrice (group_rows df k))"
    by (simp add: group_rows_def final_sort_def)
  then show ?thesis
    unfolding group_total_def by (rule nansum_mset)
qed

lemma balance_stage_Inr: "balance_stage df = Inr (final_sort (df @ balancing_records df))"
  by (simp add: balance_stage_def new_records_Inr)

lemma group_gross_hd: "group_rows df k \<noteq> [] \<Longrightarrow> GrossAOV (hd (group_rows df k)) = group_gross df k"
  by (cases "group_rows df k") (simp_all add: group_gross_def)

lemma imbalanced_iff:
  "k \<in> set (imbalanced_keys df) \<longleftrightarrow>
   k \<in> set (group_keys df) \<and> \<not> within_tolerance (group_gross df k) (group_total df k)"
  by (auto simp: imbalanced_keys_def)

lemma keys_of_output:
  "Some k \<in> PrimaryKey ` set (final_sort (df @ balancing_records df)) \<longleftrightarrow> k \<in> set (group_keys df)"
  using imbalanced_keys_subset [of df]
  by (auto simp: final_sort_def set_group_keys PrimaryKey_balancing_record image_iff balancing_records_def)


lemma balancing_fields:
  "ItemPrice (balancing_record m (cons_of df k)) = sub_na (group_gross df k) (Some (group_total df k))"
  "TotalPrice (balancing_record m (cons_of df k)) = sub_na (group_gross df k) (Some (group_total df k))"
  "ProductName (balancing_record m (cons_of df k)) = Some ''Balancing Item''"
  "ProductPLU (balancing_record m (cons_of df k)) = Some ''x-xx-xxx-x''"
  "ItemQuantities (balancing_record m (cons_of df k)) = Some 1"
  "GrossAOV (balancing_record m (cons_of df k)) = GrossAOV m"
  "OrderStatus (balancing_record m (cons_of df k)) = OrderStatus m"
  by (simp_all add: balancing_record_def cons_of_def)

lemma group_total_output:
  "group_total (final_sort (df @ balancing_records df)) k =
   group_total df k + group_total (balancing_records df) k"
  by (simp only: group_total_final_sort group_total_append)

lemma balanced_key_no_record:
  "within_tolerance (group_gross df k) (group_total df k) \<Longrightarrow> group_rows (balancing_records df) k = []"
  by (simp add: group_rows_new_records imbalanced_iff)

lemma imbalanced_key_one_record:
  "k \<in> set (group_keys df) \<Longrightarrow> \<not> within_tolerance (group_gross df k) (group_total df k) \<Longrightarrow>
   group_rows (balancing_records df) k = [balancing_record (hd (group_rows df k)) (cons_of df k)]"
  by (simp add: group_rows_new_records imbalanced_iff)

lemma conservation:
  assumes k: "k \<in> set (group_keys df)" and g: "group_gross df k = Some g"
  shows "\<bar>g - group_total (final_sort (df @ balancing_records df)) k\<bar> < 1 / 1000"
proof (cases "within_tolerance (group_gross df k) (group_total df k)")
  case True
  then have "group_total (balancing_records df) k = 0"
    by (simp add: group_total_def [of "balancing_records df"] balanced_key_no_record
        group_rows_def [symmetric] nansum_def)
  with True g show ?thesis
    by (simp add: group_total_output within_tolerance_def)
next
  case False
  with k have "group_rows (balancing_records df) k = [balancing_record (hd (group_rows df k)) (cons_of df k)]"
    by (rule imbalanced_key_one_record)
  then have "group_total (balancing_records df) k = g - group_total df k"
    using g by (simp add: group_total_def [of "balancing_records df"] balancing_fields nansum_def)
  then show ?thesis
    by (simp add: group_total_output)
qed

subsection \<open>The scenario of the specification, evaluated\<close>

lemmas example_rows = row0_def item_burger_def item_fries_def priced_burger_def priced_fries_def
  scenario_balancing_def scenario_orders_def no_gross_burger_def no_gross_balancing_def

lemma scenario_priced:
  "price_stage (filter_stage scenario_orders [item_burger, item_fries]) = [priced_burger, priced_fries]"
  by (simp add: price_stage_def filter_stage_def merge_orders_def example_rows)

lemma scenario_total: "group_total [priced_burger, priced_fries] ''A'' = 13"
  by (simp add: group_total_def group_rows_def nansum_def example_rows)

lemma scenario_gross: "group_gross [priced_burger, priced_fries] ''A'' = Some 10"
  by (simp add: group_gross_def group_rows_def example_rows)

lemma scenario_keys: "group_keys [priced_burger, priced_fries] = [''A'']"
  by (simp add: group_keys_def List.map_filter_simps example_rows)

lemma scenario_imbalanced: "imbalanced_keys [priced_burger, priced_fries] = [''A'']"
  unfolding imbalanced_keys_def scenario_keys
  by (simp add: scenario_total scenario_gross within_tolerance_def)

lemma scenario_records: "balancing_records [priced_burger, priced_fries] = [scenario_balancing]"
  unfolding balancing_records_def scenario_imbalanced list.map cons_of_def scenario_total scenario_gross
  by (simp add: balancing_record_def group_rows_def example_rows)

lemma scenario_final_keys:
  "final_key priced_fries = final_key priced_burger"
  "final_key scenario_balancing = final_key priced_burger"
  "final_key no_gross_burger = final_key priced_burger"
  "final_key no_gross_balancing = final_key priced_burger"
  by (simp_all add: final_key_def example_rows)

lemma scenario_balanced:
  "balance_stage [priced_burger, priced_fries] = Inr [priced_burger, priced_fries, scenario_balancing]"
  unfolding balance_stage_Inr scenario_records final_sort_def
  by (simp add: scenario_final_keys)

lemma scenario_output_total: "group_total [priced_burger, priced_fries, scenario_balancing] ''A'' = 10"
  by (simp add: group_total_def group_rows_def nansum_def example_rows)

lemma scenario_output_gross: "group_gross [priced_burger, priced_fries, scenario_balancing] ''A'' = Some 10"
  by (simp add: group_gross_def group_rows_def example_rows)

lemma scenario_output_keys: "group_keys [priced_burger, priced_fries, scenario_balancing] = [''A'']"
  by (simp add: group_keys_def List.map_filter_simps example_rows)

lemma no_gross_total: "group_total [no_gross_burger] ''A'' = 10"
  by (simp add: group_total_def group_rows_def nansum_def example_rows)

lemma no_gross_gross: "group_gross [no_gross_burger] ''A'' = None"
  by (simp add: group_gross_def group_rows_def example_rows)

lemma no_gross_keys: "group_keys [no_gross_burger] = [''A'']"
  by (simp add: group_keys_def List.map_filter_simps example_rows)

lemma no_gross_imbalanced: "imbalanced_keys [no_gross_burger] = [''A'']"
  unfolding imbalanced_keys_def no_gross_keys
  by (simp add: no_gross_total no_gross_gross within_tolerance_def)

lemma no_gross_records: "balancing_records [no_gross_burger] = [no_gross_balancing]"
  unfolding balancing_records_def no_gross_imbalanced list.map cons_of_def no_gross_total no_gross_gross
  by (simp add: balancing_record_def group_rows_def example_rows)

section \<open>The filter stage\<close>

lemma merge_orders_rows:
  "r' \<in> set (merge_orders clean r) \<Longrightarrow> TempColumn r' \<noteq> None \<Longrightarrow>
   r' = r\<lparr>TempColumn := Some ''Orders''\<rparr> \<and> (PrimaryKey r, OrderStatus r) \<in> set clean"
proof -
  assume r': "r' \<in> set (merge_orders clean r)" and t: "TempColumn r' \<noteq> None"
  let ?ms = "filter (\<lambda>e. fst e = PrimaryKey r \<and> snd e = OrderStatus r) clean"
  show ?thesis
  proof (cases ?ms)
    case Nil
    with r' t show ?thesis by (simp add: merge_orders_def)
  next
    case (Cons m ms)
    then have "m \<in> set ?ms" by simp
    then have "m \<in> set clean" "fst m = PrimaryKey r" "snd m = OrderStatus r" by simp_all
    then have "(PrimaryKey r, OrderStatus r) \<in> set clean"
      by (metis prod.collapse)
    with r' Cons show ?thesis by (auto simp: merge_orders_def)
  qed
qed

lemma filter_stage_rows:
  "r' \<in> set (filter_stage clean df) \<Longrightarrow>
   \<exists>r\<in>set df. r' = r\<lparr>TempColumn := Some ''Orders''\<rparr> \<and> (PrimaryKey r, OrderStatus r) \<in> set clean"
  using merge_orders_rows by (fastforce simp: filter_stage_def)

lemma distinct_filter_eq:
  "distinct xs \<Longrightarrow> filter (\<lambda>e. e = x) xs = (if x \<in> set xs then [x] else [])"
  by (induction xs) auto

lemma merge_orders_distinct:
  assumes "distinct (map fst clean)"
  shows "filter (\<lambda>r'. TempColumn r' \<noteq> None) (merge_orders clean r) =
     (if (PrimaryKey r, OrderStatus r) \<in> set clean then [r\<lparr>TempColumn := Some ''Orders''\<rparr>] else [])"
proof -
  from assms have "distinct clean"
    by (simp add: distinct_map)
  have "filter (\<lambda>e. fst e = PrimaryKey r \<and> snd e = OrderStatus r) clean =
      filter (\<lambda>e. e = (PrimaryKey r, OrderStatus r)) clean"
    by (intro filter_cong) auto
  also have "\<dots> = (if (PrimaryKey r, OrderStatus r) \<in> set clean then [(PrimaryKey r, OrderStatus r)] else [])"
    using \<open>distinct clean\<close> by (rule distinct_filter_eq)
  finally show ?thesis
    by (simp add: merge_orders_def)
qed

lemma filter_stage_distinct:
  assumes "distinct (map fst clean)"
  shows "filter_stage clean df =
     map (\<lambda>r. r\<lparr>TempColumn := Some ''Orders''\<rparr>) (filter (\<lambda>r. (PrimaryKey r, OrderStatus r) \<in> set clean) df)"
proof (induction df)
  case Nil
  then show ?case by (simp add: filter_stage_def)
next
  case (Cons r df)
  have step: "filter_stage clean (r # df) =
      filter (\<lambda>r'. TempColumn r' \<noteq> None) (merge_orders clean r) @ filter_stage clean df"
    by (simp add: filter_stage_def)
  show ?case
    unfolding step Cons.IH merge_orders_distinct [OF assms] by simp
qed

lemma clean_df_distinct:
  "distinct (map fst (map (\<lambda>r. (PrimaryKey r, OrderStatus r)) (load_deliverect_order_data cleaned order_rows)))"
  by (simp add: comp_def load_deliverect_order_data_def dedup_distinct)

lemma price_stage_rows:
  "r' \<in> set (price_stage df) \<Longrightarrow>
   \<exists>r\<in>set df. PrimaryKey r' = PrimaryKey r \<and> OrderStatus r' = OrderStatus r \<and>
     GrossAOV r' = GrossAOV r \<and> Others r' = Others r"
  by (auto simp: price_stage_def)

lemma priced_filtered_rows:
  assumes "r' \<in> set (price_stage (filter_stage clean df))"
  shows "\<exists>r\<in>set df. PrimaryKey r' = PrimaryKey r \<and> OrderStatus r' = OrderStatus r \<and>
     GrossAOV r' = GrossAOV r \<and> Others r' = Others r \<and> (PrimaryKey r, OrderStatus r) \<in> set clean"
proof -
  from price_stage_rows [OF assms] obtain r1 where r1: "r1 \<in> set (filter_stage clean df)"
    and eq1: "PrimaryKey r' = PrimaryKey r1" "OrderStatus r' = OrderStatus r1"
      "GrossAOV r' = GrossAOV r1" "Others r' = Others r1"
    by blast
  from filter_stage_rows [OF r1] obtain r where r: "r \<in> set df"
    and eq2: "r1 = r\<lparr>TempColumn := Some ''Orders''\<rparr>" and m: "(PrimaryKey r, OrderStatus r) \<in> set clean"
    by blast
  from eq1 eq2 have "PrimaryKey r' = PrimaryKey r \<and> OrderStatus r' = OrderStatus r \<and>
     GrossAOV r' = GrossAOV r \<and> Others r' = Others r"
    by simp
  with r m show ?thesis by blast
qed

lemma balancing_records_pairs:
  assumes "b \<in> set (balancing_records df)"
  shows "\<exists>r\<in>set df. PrimaryKey b = PrimaryKey r \<and> OrderStatus b = OrderStatus r"
proof -
  from assms obtain k where k: "k \<in> set (imbalanced_keys df)"
    and b: "b = balancing_record (hd (group_rows df k)) (cons_of df k)"
    by (auto simp: balancing_records_def)
  from k have "group_rows df k \<noteq> []"
    using imbalanced_keys_subset group_rows_nonempty by blast
  then have "hd (group_rows df k) \<in> set (group_rows df k)"
    by (rule hd_in_set)
  then have "hd (group_rows df k) \<in> set df" "PrimaryKey (hd (group_rows df k)) = Some k"
    by (simp_all add: group_rows_def)
  then show ?thesis
    by (metis b PrimaryKey_balancing_record balancing_fields(7))
qed

lemma reconcile_Inr:
  "reconcile clean df =
   Inr (final_sort (price_stage (filter_stage clean df) @ balancing_records (price_stage (filter_stage clean df))))"
  by (simp add: reconcile_def Let_def balance_stage_Inr)

lemma reconcile_pairs:
  assumes "reconcile clean df = Inr out" "r' \<in> set out"
  shows "(PrimaryKey r', OrderStatus r') \<in> set clean"
proof -
  let ?df = "price_stage (filter_stage clean df)"
  from assms have "r' \<in> set ?df \<or> r' \<in> set (balancing_records ?df)"
    by (auto simp: reconcile_Inr final_sort_def)
  then obtain r1 where "r1 \<in> set ?df" "PrimaryKey r' = PrimaryKey r1" "OrderStatus r' = OrderStatus r1"
    using balancing_records_pairs by blast
  with priced_filtered_rows [of r1 clean df] show ?thesis
    by auto
qed

lemma agg_group_first:
  "group_rows df k = r # rest \<Longrightarrow> \<exists>c. agg_group df k = Inr c \<and> cons_GrossAOV c = GrossAOV r"
  by (simp add: agg_group_def first_total_order_amount_def iloc0_def)

subsection \<open>Examples, evaluated\<close>

lemmas more_rows = new_burger_def cheap_fries_def order_a_def tied_burger_def tied_fries_def
  tied_priced_burger_def tied_priced_fries_def

lemma scenario_filtered:
  "filter_stage scenario_orders [item_burger, new_burger, item_fries] =
   [item_burger\<lparr>TempColumn := Some ''Orders''\<rparr>, item_fries\<lparr>TempColumn := Some ''Orders''\<rparr>]"
  by (simp add: filter_stage_def merge_orders_def example_rows more_rows)

lemma order_a_retained: "process_deliverect_remove_duplicates [order_a] = [order_a]"
proof -
  have "OrderStatus order_a = Some ''Delivered''" "OrderID order_a = Some ''#7''"
    by (simp_all add: order_a_def)
  then show ?thesis
    by (simp add: process_deliverect_remove_duplicates_def as_categorical_delivered)
qed

lemma mixed_gross:
  "map GrossAOV (price_stage (filter_stage [(PrimaryKey order_a, OrderStatus order_a)] [item_burger, cheap_fries]))
   = [Some 10, Some 7]"
  by (simp add: price_stage_def filter_stage_def merge_orders_def example_rows more_rows)

lemma tied_priced:
  "price_stage (filter_stage scenario_orders [tied_burger, tied_fries]) = [tied_priced_burger, tied_priced_fries]"
  "price_stage (filter_stage scenario_orders [tied_fries, tied_burger]) = [tied_priced_fries, tied_priced_burger]"
  by (simp_all add: price_stage_def filter_stage_def merge_orders_def example_rows more_rows)

lemma tied_keys:
  "group_keys [tied_priced_burger, tied_priced_fries] = [''A'']"
  "group_keys [tied_priced_fries, tied_priced_burger] = [''A'']"
  by (simp_all add: group_keys_def List.map_filter_simps example_rows more_rows)

lemma tied_totals:
  "group_total [tied_priced_burger, tied_priced_fries] ''A'' = 13"
  "group_total [tied_priced_fries, tied_priced_burger] ''A'' = 13"
  "group_gross [tied_priced_burger, tied_priced_fries] ''A'' = Some 13"
  "group_gross [tied_priced_fries, tied_priced_burger] ''A'' = Some 13"
  by (simp_all add: group_total_def group_gross_def group_rows_def nansum_def example_rows more_rows)

lemma tied_no_records:
  "balancing_records [tied_priced_burger, tied_priced_fries] = []"
  "balancing_records [tied_priced_fries, tied_priced_burger] = []"
  unfolding balancing_records_def imbalanced_keys_def tied_keys
  by (simp_all add: tied_totals within_tolerance_def)

lemma tied_final_keys: "final_key tied_priced_fries = final_key tied_priced_burger"
  by (simp add: final_key_def example_rows more_rows)

lemma tied_reconciled:
  "reconcile scenario_orders [tied_burger, tied_fries] = Inr [tied_priced_burger, tied_priced_fries]"
  "reconcile scenario_orders [tied_fries, tied_burger] = Inr [tied_priced_fries, tied_priced_burger]"
  unfolding reconcile_Inr tied_priced tied_no_records final_sort_def
  by (simp_all add: tied_final_keys)

section \<open>Properties of the shared normalisation\<close>

subsection \<open>The two brand labels\<close>

text \<open>
  Claim C8, as the code has it. After lines 28-35 the brand of every row is one of the two
  labels \<open>Birria\<close> and \<open>Birdie\<close>, and so it is on every row that
  \<^verbatim>\<open>process_deliverect_shared_data\<close> returns. For a brand that is present the label is decided by
  the case-insensitive search for \<open>beast\<close> in the text before its first comma (the whole
  brand when it has no comma); for a missing brand on a row whose location is present, by
  the same search in the location.
\<close>

theorem brand_normalization:
  "Brand (normalize_Brand r) \<in> {Some ''Birria'', Some ''Birdie''} \<and>
   (\<forall>b. Brand r = Some b \<longrightarrow>
      Brand (normalize_Brand r) =
        Some (if ci_search ''beast'' (takeWhile (\<lambda>c. c \<noteq> CHR '','') b) then ''Birria'' else ''Birdie'')) \<and>
   (\<forall>l. Brand r = None \<and> Location r = Some l \<longrightarrow>
      Brand (normalize_Brand r) = Some (if ci_search ''beast'' l then ''Birria'' else ''Birdie'')) \<and>
   (\<forall>r'\<in>set (process_deliverect_shared_data cleaned df). Brand r' \<in> {Some ''Birria'', Some ''Birdie''})"
proof -
  have "Brand r' \<in> {Some ''Birria'', Some ''Birdie''}"
    if "r' \<in> set (process_deliverect_shared_data cleaned df)" for r'
    using shared_data_Brand [OF that] Brand_normalize_range by metis
  then show ?thesis
    using Brand_normalize_range [of r] Brand_normalize_Some [of r] Brand_normalize_None [of r] by blast
qed

text \<open>The theorem at a brand with a comma and at a missing brand.\<close>

theorem brand_normalization_witness:
  "Brand (row0\<lparr>Brand := Some ''The Beast, Birdie''\<rparr>) = Some ''The Beast, Birdie'' \<and>
   Brand (normalize_Brand (row0\<lparr>Brand := Some ''The Beast, Birdie''\<rparr>)) = Some ''Birria'' \<and>
   Brand (row0\<lparr>Location := Some ''Beast Mitte''\<rparr>) = None \<and>
   Location (row0\<lparr>Location := Some ''Beast Mitte''\<rparr>) = Some ''Beast Mitte'' \<and>
   Brand (normalize_Brand (row0\<lparr>Location := Some ''Beast Mitte''\<rparr>)) = Some ''Birria''"
proof -
  let ?r1 = "row0\<lparr>Brand := Some ''The Beast, Birdie''\<rparr>"
  let ?r2 = "row0\<lparr>Location := Some ''Beast Mitte''\<rparr>"
  have a: "Brand ?r1 = Some ''The Beast, Birdie''"
    by simp
  have b: "Brand ?r2 = None \<and> Location ?r2 = Some ''Beast Mitte''"
    by (simp add: row0_def)
  have c: "ci_search ''beast'' (takeWhile (\<lambda>c. c \<noteq> CHR '','') ''The Beast, Birdie'')"
    by code_simp
  have d: "ci_search ''beast'' ''Beast Mitte''"
    by code_simp
  from brand_normalization [where r = ?r1 and cleaned = "[]" and df = "[]"] a
  have "Brand (normalize_Brand ?r1) =
      Some (if ci_search ''beast'' (takeWhile (\<lambda>c. c \<noteq> CHR '','') ''The Beast, Birdie'')
            then ''Birria'' else ''Birdie'')"
    by blast
  with c have one: "Brand (normalize_Brand ?r1) = Some ''Birria''"
    by (simp only: if_True)
  from brand_normalization [where r = ?r2 and cleaned = "[]" and df = "[]"] b
  have "Brand (normalize_Brand ?r2) = Some (if ci_search ''beast'' ''Beast Mitte'' then ''Birria'' else ''Birdie'')"
    by blast
  with d have two: "Brand (normalize_Brand ?r2) = Some ''Birria''"
    by (simp only: if_True)
  from a b one two show ?thesis by blast
qed

text \<open>
  Claim C8 as stated, with the search applied to the brand value itself, fails: two
  brands that both contain \<open>beast\<close> end on different labels, because line 28 cuts the
  first at its comma before the search.
\<close>

theorem brand_collapse_counterexample:
  "ci_search ''beast'' ''Birdie Birdie,Birria & the Beast'' \<and>
   Brand (normalize_Brand (row0\<lparr>Brand := Some ''Birdie Birdie,Birria & the Beast''\<rparr>)) = Some ''Birdie'' \<and>
   ci_search ''beast'' ''Birria & the Beast'' \<and>
   Brand (normalize_Brand (row0\<lparr>Brand := Some ''Birria & the Beast''\<rparr>)) = Some ''Birria''"
proof -
  have a: "ci_search ''beast'' ''Birdie Birdie,Birria & the Beast''"
    by code_simp
  have b: "\<not> ci_search ''beast'' (takeWhile (\<lambda>c. c \<noteq> CHR '','') ''Birdie Birdie,Birria & the Beast'')"
    by code_simp
  have c: "ci_search ''beast'' (takeWhile (\<lambda>c. c \<noteq> CHR '','') ''Birria & the Beast'')"
    by code_simp
  have "Brand (normalize_Brand (row0\<lparr>Brand := Some ''Birdie Birdie,Birria & the Beast''\<rparr>)) = Some ''Birdie''"
    using b Brand_normalize_Some [of "row0\<lparr>Brand := Some ''Birdie Birdie,Birria & the Beast''\<rparr>"
        "''Birdie Birdie,Birria & the Beast''"]
    by simp
  moreover have "Brand (normalize_Brand (row0\<lparr>Brand := Some ''Birria & the Beast''\<rparr>)) = Some ''Birria''"
    using c Brand_normalize_Some [of "row0\<lparr>Brand := Some ''Birria & the Beast''\<rparr>" "''Birria & the Beast''"]
    by simp
  ultimately show ?thesis
    using a beast_labels(1) by simp
qed

subsection \<open>Unmatched locations and missing keys\<close>

text \<open>
  Claim C10, as the code has it. Take an input row whose location, after line 27 of
  \<^verbatim>\<open>shared_functions.py\<close> has replaced \<open>o\<close> and \<open>u\<close> umlaut by \<open>o\<close> and \<open>u\<close>, equals the
  location of no entry of the table of cleaned names. The rows that this row contributes to
  the output of \<^verbatim>\<open>process_deliverect_shared_data\<close> (one row, or none when its normalised
  status is \<open>Duplicate\<close>) have a missing Location and a missing PrimaryKey. And the output
  of the deduplicator has at most one row with a missing PrimaryKey, whatever its input.
\<close>

theorem unmatched_location_null_key:
  "((\<forall>e\<in>set cleaned. fst e \<noteq>
       map_option (str_replace u_umlaut ''u'') (map_option (str_replace o_umlaut ''o'') (Location r))) \<longrightarrow>
    (\<exists>rs. process_deliverect_shared_data cleaned (xs @ r # ys) =
            process_deliverect_shared_data cleaned xs @ rs @ process_deliverect_shared_data cleaned ys \<and>
          length rs = (if map_option str_title (map_option (str_replace ''_'' '' '') (OrderStatus r)) = Some ''Duplicate''
                       then 0 else 1) \<and>
          (\<forall>r'\<in>set rs. Location r' = None \<and> PrimaryKey r' = None))) \<and>
   length (filter (\<lambda>r. PrimaryKey r = None) (process_deliverect_remove_duplicates df)) \<le> 1"
proof (intro conjI impI)
  assume "\<forall>e\<in>set cleaned. fst e \<noteq>
       map_option (str_replace u_umlaut ''u'') (map_option (str_replace o_umlaut ''o'') (Location r))"
  from shared_data_unmatched [OF this] obtain rs where
    rs: "process_deliverect_shared_data cleaned [r] = rs"
    and len: "length rs = (if map_option str_title (map_option (str_replace ''_'' '' '') (OrderStatus r)) = Some ''Duplicate''
                       then 0 else 1)"
    and null: "\<forall>r'\<in>set rs. Location r' = None \<and> PrimaryKey r' = None"
    by blast
  have "process_deliverect_shared_data cleaned (xs @ r # ys) =
      process_deliverect_shared_data cleaned xs @ rs @ process_deliverect_shared_data cleaned ys"
    using shared_data_append [of cleaned xs "[r] @ ys"] shared_data_append [of cleaned "[r]" ys] rs
    by simp
  with len null show "\<exists>rs. process_deliverect_shared_data cleaned (xs @ r # ys) =
            process_deliverect_shared_data cleaned xs @ rs @ process_deliverect_shared_data cleaned ys \<and>
          length rs = (if map_option str_title (map_option (str_replace ''_'' '' '') (OrderStatus r)) = Some ''Duplicate''
                       then 0 else 1) \<and>
          (\<forall>r'\<in>set rs. Location r' = None \<and> PrimaryKey r' = None)"
    by blast
next
  show "length (filter (\<lambda>r. PrimaryKey r = None) (process_deliverect_remove_duplicates df)) \<le> 1"
    by (rule dedup_null_key)
qed

text \<open>The theorem on a row from Hamburg and a table that knows only \<open>Koln\<close>.\<close>

theorem unmatched_location_null_key_witness:
  "map fst koln_names = [Some ''Koln''] \<and>
   map_option (str_replace u_umlaut ''u'') (map_option (str_replace o_umlaut ''o'') (Location raw_hamburg))
     = Some ''Hamburg'' \<and>
   map Location (process_deliverect_shared_data koln_names [raw_hamburg]) = [None] \<and>
   map PrimaryKey (process_deliverect_shared_data koln_names [raw_hamburg]) = [None] \<and>
   length (filter (\<lambda>r. PrimaryKey r = None) (process_deliverect_remove_duplicates [row0, row0 :: unit row])) \<le> 1"
proof -
  have names: "map fst koln_names = [Some ''Koln'']"
    by (simp add: koln_names_def)
  have loc: "map_option (str_replace u_umlaut ''u'') (map_option (str_replace o_umlaut ''o'') (Location raw_hamburg))
     = Some ''Hamburg''"
    by code_simp
  have "\<forall>l\<in>set (map fst koln_names). l \<noteq> Some ''Hamburg''"
    by (simp add: names)
  then have hyp: "\<forall>e\<in>set koln_names. fst e \<noteq>
       map_option (str_replace u_umlaut ''u'') (map_option (str_replace o_umlaut ''o'') (Location raw_hamburg))"
    by (simp add: loc)
  have st: "map_option str_title (map_option (str_replace ''_'' '' '') (OrderStatus raw_hamburg)) \<noteq> Some ''Duplicate''"
    by code_simp
  have e: "process_deliverect_shared_data koln_names ([] :: unit row list) = []"
    by (simp add: process_deliverect_shared_data_def clean_location_names_def)
  from unmatched_location_null_key [of koln_names raw_hamburg "[]" "[]" "[row0, row0]"] hyp st e
  obtain rs where rs: "process_deliverect_shared_data koln_names [raw_hamburg] = rs"
    and len: "length rs = 1" and null: "\<forall>r'\<in>set rs. Location r' = None \<and> PrimaryKey r' = None"
    and dd: "length (filter (\<lambda>r. PrimaryKey r = None) (process_deliverect_remove_duplicates [row0, row0 :: unit row])) \<le> 1"
    by auto
  from len obtain x where x: "rs = [x]"
    by (cases rs) auto
  with null rs names loc dd show ?thesis by simp
qed

text \<open>
  Claim C10 as stated, for a row whose own location has no entry in the table, fails: the
  location \<open>K\<close>, \<open>o\<close> umlaut, \<open>ln\<close> is not in the table, and the row still gets the cleaned
  name of \<open>Koln\<close> and a key built from it.
\<close>

theorem unmatched_location_counterexample:
  "Location raw_koln \<notin> set (map fst koln_names) \<and>
   map Location (process_deliverect_shared_data koln_names [raw_koln]) = [Some ''Cologne''] \<and>
   map PrimaryKey (process_deliverect_shared_data koln_names [raw_koln]) = [Some ''#1 - Cologne - 2023-01-05'']"
  by code_simp

section \<open>Properties of the deduplicator\<close>

subsection \<open>Key uniqueness\<close>

lemma dedup_keys_subset:
  "PrimaryKey ` set (process_deliverect_remove_duplicates df) \<subseteq> PrimaryKey ` set df"
proof -
  have "set (process_deliverect_remove_duplicates df) \<subseteq> set (map as_categorical df)"
    using set_drop_duplicates [of PrimaryKey "sort_key dedup_key (map as_categorical df)"]
    by (auto simp: process_deliverect_remove_duplicates_def)
  then have "PrimaryKey ` set (process_deliverect_remove_duplicates df) \<subseteq>
      PrimaryKey ` set (map as_categorical df)"
    by (rule image_mono)
  also have "PrimaryKey ` set (map as_categorical df) = PrimaryKey ` set df"
    by (simp add: image_image as_categorical_def)
  finally show ?thesis .
qed

lemma dedup_selected:
  assumes r: "r \<in> set df"
  shows "\<exists>pre b post.
     filter (\<lambda>x. PrimaryKey x = PrimaryKey r) (map as_categorical df) = pre @ b # post \<and>
     (\<forall>x\<in>set pre. status_code b < status_code x) \<and>
     (\<forall>x\<in>set post. status_code b \<le> status_code x) \<and>
     filter (\<lambda>x. PrimaryKey x = PrimaryKey r) (process_deliverect_remove_duplicates df) =
       (if OrderID b = Some ''#nan'' then [] else [b])"
proof -
  let ?g = "filter (\<lambda>x. PrimaryKey x = PrimaryKey r) (map as_categorical df)"
  from r have "as_categorical r \<in> set ?g"
    by (simp add: as_categorical_def)
  then have "?g \<noteq> []" by (metis empty_iff list.set(1))
  from sort_key_head [OF this, of status_code] obtain pre b post where
    g: "?g = pre @ b # post" and pre: "\<forall>x\<in>set pre. status_code b < status_code x"
    and post: "\<forall>x\<in>set post. status_code b \<le> status_code x"
    and hd: "take 1 (sort_key status_code ?g) = [b]"
    by blast
  have "filter (\<lambda>x. PrimaryKey x = PrimaryKey r) (process_deliverect_remove_duplicates df) =
      (if OrderID b = Some ''#nan'' then [] else [b])"
    by (simp only: dedup_group hd) simp
  with g pre post show ?thesis by blast
qed

lemma dedup_exactly_one:
  assumes r: "r \<in> set df"
    and ids: "\<forall>x\<in>set df. PrimaryKey x = PrimaryKey r \<longrightarrow> OrderID x \<noteq> Some ''#nan''"
  shows "length (filter (\<lambda>x. PrimaryKey x = PrimaryKey r) (process_deliverect_remove_duplicates df)) = 1"
proof -
  from dedup_selected [OF r] obtain pre b post where
    g: "filter (\<lambda>x. PrimaryKey x = PrimaryKey r) (map as_categorical df) = pre @ b # post"
    and out: "filter (\<lambda>x. PrimaryKey x = PrimaryKey r) (process_deliverect_remove_duplicates df) =
       (if OrderID b = Some ''#nan'' then [] else [b])"
    by blast
  from g have "b \<in> set (filter (\<lambda>x. PrimaryKey x = PrimaryKey r) (map as_categorical df))"
    by simp
  then obtain x where x: "x \<in> set df" "b = as_categorical x" "PrimaryKey (as_categorical x) = PrimaryKey r"
    by auto
  then have "PrimaryKey x = PrimaryKey r" "OrderID b = OrderID x"
    by (simp_all add: as_categorical_def)
  with ids x(1) have "OrderID b \<noteq> Some ''#nan''" by simp
  with out show ?thesis by simp
qed

text \<open>
  Claim C2, as the code has it. Whatever the input, no two rows of the deduplicator's
  output share a PrimaryKey (two missing keys count as the same key), and every key of the
  output is a key of the input. For a key of the input, the output has one row or none:
  with \<open>b\<close> the record selected for the key (the earliest of those with the lowest status
  code), the number of rows with the key is 1, unless the order identifier of \<open>b\<close> is
  \<open>#nan\<close>, and then it is 0. In particular exactly one row survives for a key none of
  whose records has the order identifier \<open>#nan\<close>.
\<close>

theorem dedup_key_unique:
  "distinct (map PrimaryKey (process_deliverect_remove_duplicates df)) \<and>
   (\<forall>r\<in>set (process_deliverect_remove_duplicates df).
      filter (\<lambda>x. PrimaryKey x = PrimaryKey r) (process_deliverect_remove_duplicates df) = [r]) \<and>
   PrimaryKey ` set (process_deliverect_remove_duplicates df) \<subseteq> PrimaryKey ` set df \<and>
   (r \<in> set df \<longrightarrow>
      (\<exists>pre b post.
         filter (\<lambda>x. PrimaryKey x = PrimaryKey r) (map as_categorical df) = pre @ b # post \<and>
         (\<forall>x\<in>set pre. status_code b < status_code x) \<and>
         (\<forall>x\<in>set post. status_code b \<le> status_code x) \<and>
         length (filter (\<lambda>x. PrimaryKey x = PrimaryKey r) (process_deliverect_remove_duplicates df)) =
           (if OrderID b = Some ''#nan'' then 0 else 1))) \<and>
   (r \<in> set df \<and> (\<forall>x\<in>set df. PrimaryKey x = PrimaryKey r \<longrightarrow> OrderID x \<noteq> Some ''#nan'') \<longrightarrow>
      length (filter (\<lambda>x. PrimaryKey x = PrimaryKey r) (process_deliverect_remove_duplicates df)) = 1)"
proof (intro conjI impI)
  show "distinct (map PrimaryKey (process_deliverect_remove_duplicates df))"
    by (rule dedup_distinct)
  then show "\<forall>r\<in>set (process_deliverect_remove_duplicates df).
      filter (\<lambda>x. PrimaryKey x = PrimaryKey r) (process_deliverect_remove_duplicates df) = [r]"
    using distinct_map_filter_single [of PrimaryKey "process_deliverect_remove_duplicates df"] by blast
  show "PrimaryKey ` set (process_deliverect_remove_duplicates df) \<subseteq> PrimaryKey ` set df"
    by (rule dedup_keys_subset)
next
  assume "r \<in> set df"
  from dedup_selected [OF this] obtain pre b post where
    "filter (\<lambda>x. PrimaryKey x = PrimaryKey r) (map as_categorical df) = pre @ b # post"
    "\<forall>x\<in>set pre. status_code b < status_code x" "\<forall>x\<in>set post. status_code b \<le> status_code x"
    and out: "filter (\<lambda>x. PrimaryKey x = PrimaryKey r) (process_deliverect_remove_duplicates df) =
       (if OrderID b = Some ''#nan'' then [] else [b])"
    by blast
  moreover from out have
    "length (filter (\<lambda>x. PrimaryKey x = PrimaryKey r) (process_deliverect_remove_duplicates df)) =
       (if OrderID b = Some ''#nan'' then 0 else 1)"
    by simp
  ultimately show "\<exists>pre b post.
         filter (\<lambda>x. PrimaryKey x = PrimaryKey r) (map as_categorical df) = pre @ b # post \<and>
         (\<forall>x\<in>set pre. status_code b < status_code x) \<and>
         (\<forall>x\<in>set post. status_code b \<le> status_code x) \<and>
         length (filter (\<lambda>x. PrimaryKey x = PrimaryKey r) (process_deliverect_remove_duplicates df)) =
           (if OrderID b = Some ''#nan'' then 0 else 1)"
    by blast
next
  assume "r \<in> set df \<and> (\<forall>x\<in>set df. PrimaryKey x = PrimaryKey r \<longrightarrow> OrderID x \<noteq> Some ''#nan'')"
  then show "length (filter (\<lambda>x. PrimaryKey x = PrimaryKey r) (process_deliverect_remove_duplicates df)) = 1"
    using dedup_exactly_one [of r df] by blast
qed

text \<open>
  The theorem on two rows that share the key \<open>X\<close>, with the order identifier \<open>#1\<close>: the
  output is the Delivered row alone.
\<close>

theorem dedup_key_unique_witness:
  "order_new \<in> set [order_new, order_delivered] \<and>
   map PrimaryKey [order_new, order_delivered] = [Some ''X'', Some ''X''] \<and>
   map OrderID [order_new, order_delivered] = [Some ''#1'', Some ''#1''] \<and>
   process_deliverect_remove_duplicates [order_new, order_delivered] = [order_delivered] \<and>
   distinct (map PrimaryKey (process_deliverect_remove_duplicates [order_new, order_delivered])) \<and>
   filter (\<lambda>x. PrimaryKey x = PrimaryKey order_delivered)
     (process_deliverect_remove_duplicates [order_new, order_delivered]) = [order_delivered] \<and>
   length (filter (\<lambda>x. PrimaryKey x = PrimaryKey order_new)
     (process_deliverect_remove_duplicates [order_new, order_delivered])) = 1"
proof -
  let ?df = "[order_new, order_delivered]"
  have out: "process_deliverect_remove_duplicates ?df = [order_delivered]"
    by code_simp
  then have m: "order_delivered \<in> set (process_deliverect_remove_duplicates ?df)"
    by simp
  have cols: "map PrimaryKey ?df = [Some ''X'', Some ''X'']" "map OrderID ?df = [Some ''#1'', Some ''#1'']"
    by (simp_all add: order_new_def order_delivered_def)
  then have ids: "\<forall>x\<in>set ?df. PrimaryKey x = PrimaryKey order_new \<longrightarrow> OrderID x \<noteq> Some ''#nan''"
    by simp
  have r: "order_new \<in> set ?df" by simp
  note inst = dedup_key_unique [where df = ?df and r = order_new]
  from inst have "distinct (map PrimaryKey (process_deliverect_remove_duplicates ?df))"
    by blast
  moreover from inst m have "filter (\<lambda>x. PrimaryKey x = PrimaryKey order_delivered)
     (process_deliverect_remove_duplicates ?df) = [order_delivered]"
    by blast
  moreover from inst r ids have "length (filter (\<lambda>x. PrimaryKey x = PrimaryKey order_new)
     (process_deliverect_remove_duplicates ?df)) = 1"
    by blast
  ultimately show ?thesis using r cols out by blast
qed

text \<open>
  Claim C2 as stated, with exactly one survivor for every key, fails on a row without an
  order identifier: its key \<open>#nan - Berlin - 2023-01-05\<close> is the only key of the input, and
  the output has no row.
\<close>

theorem dedup_key_unique_counterexample:
  "map PrimaryKey (process_deliverect_shared_data berlin_names [raw_delivered])
     = [Some ''#nan - Berlin - 2023-01-05''] \<and>
   process_deliverect_remove_duplicates (process_deliverect_shared_data berlin_names [raw_delivered]) = []"
  by code_simp

subsection \<open>Precedence\<close>

text \<open>
  Claim C4, as the code has it. Take the rows that share the key of some input row, in
  input order, their statuses made categorical (line 57). One of them, \<open>b\<close>, has a status
  code strictly below the codes of all rows before it and at most the codes of all rows
  after it: the lowest code, and the earliest row among those that have it. The code of a
  status is its position in \<open>custom_order\<close>; a status outside the table has the code 17,
  after all others. The deduplicator's output for the key is \<open>b\<close> alone, unless the
  order identifier of \<open>b\<close> is \<open>#nan\<close>: then line 62 removes it and the output has no row
  for the key. In particular, of two rows that share a key, with the statuses Cancelled and
  Delivered and an order identifier of the Delivered row other than \<open>#nan\<close>, the Delivered
  row is the output, in either input order.
\<close>

theorem dedup_precedence:
  "(r \<in> set df \<longrightarrow>
     (\<exists>pre b post.
        filter (\<lambda>x. PrimaryKey x = PrimaryKey r) (map as_categorical df) = pre @ b # post \<and>
        (\<forall>x\<in>set pre. status_code b < status_code x) \<and>
        (\<forall>x\<in>set post. status_code b \<le> status_code x) \<and>
        filter (\<lambda>x. PrimaryKey x = PrimaryKey r) (process_deliverect_remove_duplicates df) =
          (if OrderID b = Some ''#nan'' then [] else [b]))) \<and>
   (PrimaryKey r1 = PrimaryKey r2 \<and> OrderStatus r1 = Some ''Cancelled'' \<and>
    OrderStatus r2 = Some ''Delivered'' \<and> OrderID r2 \<noteq> Some ''#nan'' \<longrightarrow>
      process_deliverect_remove_duplicates [r1, r2] = [r2] \<and>
      process_deliverect_remove_duplicates [r2, r1] = [r2])"
proof (intro conjI impI)
  assume r: "r \<in> set df"
  let ?g = "filter (\<lambda>x. PrimaryKey x = PrimaryKey r) (map as_categorical df)"
  from r have "as_categorical r \<in> set ?g"
    by (simp add: as_categorical_def)
  then have "?g \<noteq> []" by (metis empty_iff list.set(1))
  from sort_key_head [OF this, of status_code] obtain pre b post where
    g: "?g = pre @ b # post" and pre: "\<forall>x\<in>set pre. status_code b < status_code x"
    and post: "\<forall>x\<in>set post. status_code b \<le> status_code x"
    and hd: "take 1 (sort_key status_code ?g) = [b]"
    by blast
  have "filter (\<lambda>x. PrimaryKey x = PrimaryKey r) (process_deliverect_remove_duplicates df) =
      (if OrderID b = Some ''#nan'' then [] else [b])"
    by (simp only: dedup_group hd) simp
  with g pre post show "\<exists>pre b post.
        ?g = pre @ b # post \<and>
        (\<forall>x\<in>set pre. status_code b < status_code x) \<and>
        (\<forall>x\<in>set post. status_code b \<le> status_code x) \<and>
        filter (\<lambda>x. PrimaryKey x = PrimaryKey r) (process_deliverect_remove_duplicates df) =
          (if OrderID b = Some ''#nan'' then [] else [b])"
    by blast
next
  assume "PrimaryKey r1 = PrimaryKey r2 \<and> OrderStatus r1 = Some ''Cancelled'' \<and>
    OrderStatus r2 = Some ''Delivered'' \<and> OrderID r2 \<noteq> Some ''#nan''"
  then show "process_deliverect_remove_duplicates [r1, r2] = [r2]"
    using dedup_cancelled_delivered(1) by blast
next
  assume "PrimaryKey r1 = PrimaryKey r2 \<and> OrderStatus r1 = Some ''Cancelled'' \<and>
    OrderStatus r2 = Some ''Delivered'' \<and> OrderID r2 \<noteq> Some ''#nan''"
  then show "process_deliverect_remove_duplicates [r2, r1] = [r2]"
    using dedup_cancelled_delivered(2) by blast
qed

text \<open>
  The theorem on the rows with the statuses New and Delivered, and on a Cancelled and a
  Delivered row with the order identifier \<open>#1\<close>.
\<close>

theorem dedup_precedence_witness:
  "order_new \<in> set [order_new, order_delivered] \<and>
   filter (\<lambda>x. PrimaryKey x = PrimaryKey order_new) (process_deliverect_remove_duplicates [order_new, order_delivered])
     = [order_delivered] \<and>
   PrimaryKey (order_new\<lparr>OrderStatus := Some ''Cancelled''\<rparr>) = PrimaryKey order_delivered \<and>
   OrderStatus (order_new\<lparr>OrderStatus := Some ''Cancelled''\<rparr>) = Some ''Cancelled'' \<and>
   OrderStatus order_delivered = Some ''Delivered'' \<and> OrderID order_delivered \<noteq> Some ''#nan'' \<and>
   process_deliverect_remove_duplicates [order_new\<lparr>OrderStatus := Some ''Cancelled''\<rparr>, order_delivered]
     = [order_delivered]"
proof -
  have hyps: "PrimaryKey (order_new\<lparr>OrderStatus := Some ''Cancelled''\<rparr>) = PrimaryKey order_delivered \<and>
      OrderStatus (order_new\<lparr>OrderStatus := Some ''Cancelled''\<rparr>) = Some ''Cancelled'' \<and>
      OrderStatus order_delivered = Some ''Delivered'' \<and> OrderID order_delivered \<noteq> Some ''#nan''"
    by (simp add: order_new_def order_delivered_def row0_def)
  have out: "process_deliverect_remove_duplicates [order_new, order_delivered] = [order_delivered]"
    by code_simp
  have pk: "PrimaryKey order_new = PrimaryKey order_delivered"
    by (simp add: order_new_def order_delivered_def)
  from dedup_precedence [of "order_new\<lparr>OrderStatus := Some ''Cancelled''\<rparr>" "[]"
      "order_new\<lparr>OrderStatus := Some ''Cancelled''\<rparr>" order_delivered] hyps
  have "process_deliverect_remove_duplicates [order_new\<lparr>OrderStatus := Some ''Cancelled''\<rparr>, order_delivered]
     = [order_delivered]"
    by blast
  moreover have "filter (\<lambda>x. PrimaryKey x = PrimaryKey order_new)
      (process_deliverect_remove_duplicates [order_new, order_delivered]) = [order_delivered]"
    by (simp add: out pk)
  ultimately show ?thesis using hyps by simp
qed

text \<open>
  Claim C4 as stated fails on rows without an order identifier: the two raw rows below get
  the same key \<open>#nan - Berlin - 2023-01-05\<close> and the statuses Cancelled and Delivered; the
  Delivered row is selected and then removed by line 62, and nothing is retained.
\<close>

theorem dedup_precedence_counterexample:
  "map PrimaryKey (process_deliverect_shared_data berlin_names [raw_cancelled, raw_delivered])
     = [Some ''#nan - Berlin - 2023-01-05'', Some ''#nan - Berlin - 2023-01-05''] \<and>
   map OrderStatus (process_deliverect_shared_data berlin_names [raw_cancelled, raw_delivered])
     = [Some ''Cancelled'', Some ''Delivered''] \<and>
   process_deliverect_remove_duplicates
     (process_deliverect_shared_data berlin_names [raw_cancelled, raw_delivered]) = []"
  by code_simp

section \<open>Properties of the reconciler\<close>

subsection \<open>Semi-join\<close>

text \<open>
  Claim C3. The order data that reaches the reconciler has one row for each key, so
  \<open>clean_df\<close> has distinct keys; on such a table the filter stage keeps exactly the item
  rows whose (PrimaryKey, OrderStatus) pair is the pair of a row of \<open>clean_df\<close>, each
  once, in input order and marked \<open>Orders\<close>; every other item row is dropped, none is kept
  with a missing mark. And every row of the reconciler's output, balancing records
  included, has the (PrimaryKey, OrderStatus) pair of a row of \<open>clean_df\<close>.
\<close>

theorem filter_stage_semi_join:
  "distinct (map fst (map (\<lambda>r. (PrimaryKey r, OrderStatus r)) (load_deliverect_order_data cleaned order_rows))) \<and>
   (distinct (map fst clean) \<longrightarrow>
      filter_stage clean df =
        map (\<lambda>r. r\<lparr>TempColumn := Some ''Orders''\<rparr>)
          (filter (\<lambda>r. (PrimaryKey r, OrderStatus r) \<in> set clean) df)) \<and>
   (\<forall>out. reconcile clean df = Inr out \<longrightarrow> (\<forall>r\<in>set out. (PrimaryKey r, OrderStatus r) \<in> set clean))"
  using clean_df_distinct [of cleaned order_rows] filter_stage_distinct [of clean df] reconcile_pairs [of clean df]
  by blast

text \<open>
  The theorem on the scenario with a third item row of the same order, whose status New
  did not survive: that row is dropped, the other two are kept.
\<close>

theorem filter_stage_semi_join_witness:
  "distinct (map fst scenario_orders) \<and>
   (PrimaryKey new_burger, OrderStatus new_burger) \<notin> set scenario_orders \<and>
   PrimaryKey new_burger = PrimaryKey item_burger \<and>
   filter_stage scenario_orders [item_burger, new_burger, item_fries] =
     [item_burger\<lparr>TempColumn := Some ''Orders''\<rparr>, item_fries\<lparr>TempColumn := Some ''Orders''\<rparr>] \<and>
   reconcile scenario_orders [item_burger, item_fries] = Inr [priced_burger, priced_fries, scenario_balancing] \<and>
   (PrimaryKey scenario_balancing, OrderStatus scenario_balancing) \<in> set scenario_orders"
proof -
  have d: "distinct (map fst scenario_orders)"
    by (simp add: scenario_orders_def)
  have n: "(PrimaryKey new_burger, OrderStatus new_burger) \<notin> set scenario_orders"
    "PrimaryKey new_burger = PrimaryKey item_burger"
    by (simp_all add: example_rows more_rows)
  have r: "reconcile scenario_orders [item_burger, item_fries] = Inr [priced_burger, priced_fries, scenario_balancing]"
    by (simp only: reconcile_def Let_def scenario_priced scenario_balanced)
  from filter_stage_semi_join [where clean = scenario_orders and df = "[item_burger, item_fries]"]
  have "\<forall>out. reconcile scenario_orders [item_burger, item_fries] = Inr out \<longrightarrow>
      (\<forall>x\<in>set out. (PrimaryKey x, OrderStatus x) \<in> set scenario_orders)"
    by blast
  with r have "\<forall>x\<in>set [priced_burger, priced_fries, scenario_balancing].
      (PrimaryKey x, OrderStatus x) \<in> set scenario_orders"
    by blast
  then have "(PrimaryKey scenario_balancing, OrderStatus scenario_balancing) \<in> set scenario_orders"
    by simp
  with d n r scenario_filtered show ?thesis by simp
qed

subsection \<open>Where the GrossAOV of an item row comes from\<close>

text \<open>
  Claim C6, as the code has it. The merge of line 248 takes only the mark TempColumn from
  the order data. Every row that leaves the price stage comes from an item row of the
  input that has its key and status, with a pair of \<open>clean_df\<close>, and carries that item
  row's own GrossAOV and its own other order-level fields, as the item-level feed gave
  them. The aggregation takes the GrossAOV of the first row of each group.
\<close>

theorem item_rows_keep_own_fields:
  "(r' \<in> set (price_stage (filter_stage clean df)) \<longrightarrow>
      (\<exists>r\<in>set df. PrimaryKey r' = PrimaryKey r \<and> OrderStatus r' = OrderStatus r \<and>
         GrossAOV r' = GrossAOV r \<and> Others r' = Others r \<and> (PrimaryKey r, OrderStatus r) \<in> set clean)) \<and>
   (group_rows df k = r # rest \<longrightarrow> (\<exists>c. agg_group df k = Inr c \<and> cons_GrossAOV c = GrossAOV r))"
  using priced_filtered_rows [of r' clean df] agg_group_first [of df k r rest]
  by blast

text \<open>The theorem on the scenario: the priced first row has the GrossAOV of its item row.\<close>

theorem item_rows_keep_own_fields_witness:
  "priced_burger \<in> set (price_stage (filter_stage scenario_orders [item_burger, item_fries])) \<and>
   GrossAOV priced_burger \<in> GrossAOV ` set [item_burger, item_fries] \<and>
   GrossAOV priced_burger = Some 10 \<and> GrossAOV item_burger = Some 10 \<and> GrossAOV item_fries = Some 10 \<and>
   group_rows [priced_burger, priced_fries] ''A'' = priced_burger # [priced_fries] \<and>
   cons_GrossAOV (cons_of [priced_burger, priced_fries] ''A'') = GrossAOV priced_burger"
proof -
  have m: "priced_burger \<in> set (price_stage (filter_stage scenario_orders [item_burger, item_fries]))"
    by (simp add: scenario_priced)
  have g: "GrossAOV priced_burger = Some 10" "GrossAOV item_burger = Some 10" "GrossAOV item_fries = Some 10"
    by (simp_all add: example_rows)
  have rows: "group_rows [priced_burger, priced_fries] ''A'' = priced_burger # [priced_fries]"
    by (simp add: group_rows_def example_rows)
  from item_rows_keep_own_fields [where r' = priced_burger and clean = scenario_orders
      and df = "[item_burger, item_fries]"] m
  have own: "GrossAOV priced_burger \<in> GrossAOV ` set [item_burger, item_fries]"
    by blast
  from item_rows_keep_own_fields [where df = "[priced_burger, priced_fries]" and k = "''A''"
      and r = priced_burger and rest = "[priced_fries]"] rows
  obtain c where "agg_group [priced_burger, priced_fries] ''A'' = Inr c" "cons_GrossAOV c = GrossAOV priced_burger"
    by blast
  then have "cons_GrossAOV (cons_of [priced_burger, priced_fries] ''A'') = GrossAOV priced_burger"
    by (simp add: cons_of_def scenario_gross g)
  with m g rows own show ?thesis by simp
qed

text \<open>
  Claim C6 as stated fails: the retained order row for the key \<open>A\<close> has the GrossAOV 12,
  and the two surviving item rows of the key carry 10 and 7, as their own feed had it.
\<close>

theorem item_rows_keep_own_fields_counterexample:
  "process_deliverect_remove_duplicates [order_a] = [order_a] \<and> GrossAOV order_a = Some 12 \<and>
   map PrimaryKey [item_burger, cheap_fries] = [PrimaryKey order_a, PrimaryKey order_a] \<and>
   map GrossAOV (price_stage (filter_stage [(PrimaryKey order_a, OrderStatus order_a)] [item_burger, cheap_fries]))
     = [Some 10, Some 7]"
  using order_a_retained mixed_gross
  by (simp add: example_rows more_rows)

subsection \<open>Conservation\<close>

lemma no_key_evaluated:
  "balance_stage [no_key_burger, no_key_burger] = Inr [no_key_burger, no_key_burger]"
proof -
  have "group_keys [no_key_burger, no_key_burger] = []"
    by (simp add: group_keys_def List.map_filter_simps no_key_burger_def)
  then have "balancing_records [no_key_burger, no_key_burger] = []"
    by (simp add: balancing_records_def imbalanced_keys_def)
  then show ?thesis
    by (simp add: balance_stage_Inr final_sort_def)
qed

text \<open>
  Claim C1, as the code has it. The balancing stage never fails, and no balancing record
  has a missing PrimaryKey: rows whose key is missing are in no group (\<open>groupby\<close> leaves
  them out) and are not balanced. Let \<open>df\<close> be the table that line 279 leaves and take a
  key that is not missing and occurs in the output. The group's total is the sum of its
  TotalPrice values (missing ones skipped), its GrossAOV is the one of its first row in
  \<open>df\<close>. If the two are within 0.001 of each other, no balancing record has the key. If
  they are not (also when the GrossAOV is missing), exactly one balancing record has the
  key, with ItemPrice and TotalPrice equal to GrossAOV minus total, the name
  \<open>Balancing Item\<close>, the PLU \<open>x-xx-xxx-x\<close>, quantity 1 and the group's GrossAOV. And
  whenever the group's GrossAOV is not missing, the total of the group in the output,
  balancing record included, is within 0.001 of it.
\<close>

theorem balancing_conservation:
  "\<exists>recs. new_records df = Inr recs \<and> balance_stage df = Inr (final_sort (df @ recs)) \<and>
     None \<notin> PrimaryKey ` set recs \<and>
     (\<forall>k. Some k \<in> PrimaryKey ` set (final_sort (df @ recs)) \<longrightarrow>
        (within_tolerance (group_gross df k) (group_total df k) \<longrightarrow> group_rows recs k = []) \<and>
        (\<not> within_tolerance (group_gross df k) (group_total df k) \<longrightarrow>
           (\<exists>b. group_rows recs k = [b] \<and>
                ItemPrice b = sub_na (group_gross df k) (Some (group_total df k)) \<and>
                TotalPrice b = sub_na (group_gross df k) (Some (group_total df k)) \<and>
                ProductName b = Some ''Balancing Item'' \<and> ProductPLU b = Some ''x-xx-xxx-x'' \<and>
                ItemQuantities b = Some 1 \<and> GrossAOV b = group_gross df k)) \<and>
        (\<forall>g. group_gross df k = Some g \<longrightarrow> \<bar>g - group_total (final_sort (df @ recs)) k\<bar> < 1 / 1000))"
proof -
  let ?recs = "balancing_records df"
  have "(within_tolerance (group_gross df k) (group_total df k) \<longrightarrow> group_rows ?recs k = []) \<and>
        (\<not> within_tolerance (group_gross df k) (group_total df k) \<longrightarrow>
           (\<exists>b. group_rows ?recs k = [b] \<and>
                ItemPrice b = sub_na (group_gross df k) (Some (group_total df k)) \<and>
                TotalPrice b = sub_na (group_gross df k) (Some (group_total df k)) \<and>
                ProductName b = Some ''Balancing Item'' \<and> ProductPLU b = Some ''x-xx-xxx-x'' \<and>
                ItemQuantities b = Some 1 \<and> GrossAOV b = group_gross df k)) \<and>
        (\<forall>g. group_gross df k = Some g \<longrightarrow> \<bar>g - group_total (final_sort (df @ ?recs)) k\<bar> < 1 / 1000)"
    if "Some k \<in> PrimaryKey ` set (final_sort (df @ ?recs))" for k
  proof -
    from that have k: "k \<in> set (group_keys df)"
      by (simp only: keys_of_output)
    then have ne: "group_rows df k \<noteq> []"
      by (rule group_rows_nonempty)
    let ?b = "balancing_record (hd (group_rows df k)) (cons_of df k)"
    have one: "group_rows ?recs k = [?b]"
      if "\<not> within_tolerance (group_gross df k) (group_total df k)"
      using k that by (rule imbalanced_key_one_record)
    have gross: "GrossAOV ?b = group_gross df k"
      using ne by (simp add: balancing_fields group_gross_hd)
    show ?thesis
      using balanced_key_no_record [of df k] one gross balancing_fields(1-5) [of "hd (group_rows df k)" df k]
        conservation [OF k]
      by blast
  qed
  moreover have "None \<notin> PrimaryKey ` set ?recs"
    by (auto simp: balancing_records_def PrimaryKey_balancing_record)
  ultimately show ?thesis
    using new_records_Inr [of df] balance_stage_Inr [of df] by blast
qed

text \<open>The theorem on the two priced rows of the scenario: total 13 against a GrossAOV of 10.\<close>

theorem balancing_conservation_witness:
  "Some ''A'' \<in> PrimaryKey ` set (final_sort ([priced_burger, priced_fries] @ [scenario_balancing])) \<and>
   \<not> within_tolerance (group_gross [priced_burger, priced_fries] ''A'') (group_total [priced_burger, priced_fries] ''A'') \<and>
   group_gross [priced_burger, priced_fries] ''A'' = Some 10 \<and>
   group_rows [scenario_balancing] ''A'' = [scenario_balancing] \<and>
   \<bar>10 - group_total (final_sort ([priced_burger, priced_fries] @ [scenario_balancing])) ''A''\<bar> < 1 / 1000"
proof -
  let ?df = "[priced_burger, priced_fries]"
  have recs: "new_records ?df = Inr [scenario_balancing]"
    by (simp only: new_records_Inr scenario_records)
  have key: "Some ''A'' \<in> PrimaryKey ` set (final_sort (?df @ [scenario_balancing]))"
    by (simp add: final_sort_def example_rows)
  have imb: "\<not> within_tolerance (group_gross ?df ''A'') (group_total ?df ''A'')"
    by (simp add: scenario_total scenario_gross within_tolerance_def)
  have rows: "group_rows [scenario_balancing] ''A'' = [scenario_balancing]"
    by (simp add: group_rows_def example_rows)
  from balancing_conservation [of ?df] recs key
  have "\<forall>g. group_gross ?df ''A'' = Some g \<longrightarrow>
      \<bar>g - group_total (final_sort (?df @ [scenario_balancing])) ''A''\<bar> < 1 / 1000"
    by auto
  with scenario_gross have "\<bar>10 - group_total (final_sort (?df @ [scenario_balancing])) ''A''\<bar> < 1 / 1000"
    by blast
  with key imb rows scenario_gross show ?thesis by blast
qed

text \<open>
  Claim C1 as stated, for every key of the output, fails twice. On a group whose GrossAOV
  is missing the check of line 294 is false, the balancing record gets a missing price
  and total, and the group of the output has the total 10 and no GrossAOV to be near to.
  And two rows whose PrimaryKey is missing (rows of an unknown location, which pass the
  filter when the order data has such a row with their status) are returned as they are,
  with a total of 20 against their GrossAOV of 10 and no balancing record.
\<close>

theorem balancing_conservation_counterexample:
  "balance_stage [no_gross_burger] = Inr [no_gross_burger, no_gross_balancing] \<and>
   map PrimaryKey [no_gross_burger, no_gross_balancing] = [Some ''A'', Some ''A''] \<and>
   map GrossAOV [no_gross_burger, no_gross_balancing] = [None, None] \<and>
   map TotalPrice [no_gross_burger, no_gross_balancing] = [Some 10, None] \<and>
   group_total [no_gross_burger, no_gross_balancing] ''A'' = 10 \<and>
   \<not> within_tolerance (group_gross [no_gross_burger, no_gross_balancing] ''A'')
       (group_total [no_gross_burger, no_gross_balancing] ''A'') \<and>
   balance_stage [no_key_burger, no_key_burger] = Inr [no_key_burger, no_key_burger] \<and>
   map PrimaryKey [no_key_burger, no_key_burger] = [None, None] \<and>
   map GrossAOV [no_key_burger, no_key_burger] = [Some 10, Some 10] \<and>
   nansum (map TotalPrice [no_key_burger, no_key_burger]) = 20"
proof -
  have "balance_stage [no_gross_burger] = Inr [no_gross_burger, no_gross_balancing]"
    unfolding balance_stage_Inr no_gross_records final_sort_def
    by (simp add: scenario_final_keys)
  moreover have "group_total [no_gross_burger, no_gross_balancing] ''A'' = 10"
    by (simp add: group_total_def group_rows_def nansum_def example_rows)
  moreover have "group_gross [no_gross_burger, no_gross_balancing] ''A'' = None"
    by (simp add: group_gross_def group_rows_def example_rows)
  moreover have "map PrimaryKey [no_key_burger, no_key_burger] = [None, None] \<and>
   map GrossAOV [no_key_burger, no_key_burger] = [Some 10, Some 10] \<and>
   nansum (map TotalPrice [no_key_burger, no_key_burger]) = 20"
    by (simp add: nansum_def no_key_burger_def example_rows)
  ultimately show ?thesis
    using no_key_evaluated
    by (simp add: within_tolerance_def) (simp add: example_rows)
qed

subsection \<open>The scenario\<close>

text \<open>
  Claim C5, as the code has it. On the two item rows of the scenario (key \<open>A\<close>, unit
  prices 500 and 300 minor units, quantities 2 and 1, GrossAOV 10) the price stage gives
  the unit prices 5 and 3 and the totals 5 * 2 = 10 and 3 * 1 = 3; the total of the group
  is 13, the imbalance against the GrossAOV is 10 - 13 = -3, and the reconciler appends
  exactly one balancing record, with price and total -3.
\<close>

theorem scenario_reconciled:
  "price_stage (filter_stage scenario_orders [item_burger, item_fries]) = [priced_burger, priced_fries] \<and>
   map ItemPrice [priced_burger, priced_fries] = [Some 5, Some 3] \<and>
   map TotalPrice [priced_burger, priced_fries] = [Some 10, Some 3] \<and>
   group_total [priced_burger, priced_fries] ''A'' = 13 \<and>
   group_gross [priced_burger, priced_fries] ''A'' = Some 10 \<and>
   reconcile scenario_orders [item_burger, item_fries] = Inr [priced_burger, priced_fries, scenario_balancing] \<and>
   ItemPrice scenario_balancing = Some (- 3) \<and> TotalPrice scenario_balancing = Some (- 3)"
proof -
  have "reconcile scenario_orders [item_burger, item_fries] = Inr [priced_burger, priced_fries, scenario_balancing]"
    by (simp only: reconcile_def Let_def scenario_priced scenario_balanced)
  then show ?thesis
    using scenario_priced scenario_total scenario_gross
    by (simp add: priced_burger_def priced_fries_def scenario_balancing_def)
qed

text \<open>
  Claim C5 as stated fails: the total of the group is not 8, and the one balancing record
  that is appended does not have the price and total 2.
\<close>

theorem scenario_counterexample:
  "group_total (price_stage (filter_stage scenario_orders [item_burger, item_fries])) ''A'' \<noteq> 8 \<and>
   new_records (price_stage (filter_stage scenario_orders [item_burger, item_fries])) = Inr [scenario_balancing] \<and>
   ItemPrice scenario_balancing \<noteq> Some 2 \<and> TotalPrice scenario_balancing \<noteq> Some 2"
  by (simp add: scenario_priced scenario_total new_records_Inr scenario_records)
    (simp add: scenario_balancing_def)

subsection \<open>Idempotence\<close>

lemma uniform_output:
  assumes uniform: "\<forall>r\<in>set df. \<forall>k. PrimaryKey r = Some k \<longrightarrow>
      GrossAOV r = group_gross df k \<and> group_gross df k \<noteq> None"
  shows "balance_stage (final_sort (df @ balancing_records df)) = Inr (final_sort (df @ balancing_records df))"
proof -
  let ?out = "final_sort (df @ balancing_records df)"
  have rows: "GrossAOV r = group_gross df k" if "r \<in> set ?out" "PrimaryKey r = Some k" for r k
  proof -
    from that(1) consider "r \<in> set df" | "r \<in> set (balancing_records df)"
      by (auto simp: final_sort_def)
    then show ?thesis
    proof cases
      case 1
      with uniform that(2) show ?thesis by blast
    next
      case 2
      then obtain k' where k': "k' \<in> set (imbalanced_keys df)"
        and r: "r = balancing_record (hd (group_rows df k')) (cons_of df k')"
        by (auto simp: balancing_records_def)
      from r that(2) have "k' = k"
        by (simp add: PrimaryKey_balancing_record)
      moreover from k' have "group_rows df k' \<noteq> []"
        using imbalanced_keys_subset group_rows_nonempty by blast
      ultimately show ?thesis
        by (simp add: r balancing_fields group_gross_hd)
    qed
  qed
  have "within_tolerance (group_gross ?out k) (group_total ?out k)" if "k \<in> set (group_keys ?out)" for k
  proof -
    from that have k: "k \<in> set (group_keys df)"
      by (simp add: set_group_keys [of ?out] keys_of_output)
    from that obtain r rest where g: "group_rows ?out k = r # rest"
      using group_rows_nonempty by (cases "group_rows ?out k") auto
    then have "r \<in> set (group_rows ?out k)" by simp
    then have "r \<in> set ?out" "PrimaryKey r = Some k"
      by (simp_all add: group_rows_def)
    then have "GrossAOV r = group_gross df k" by (rule rows)
    with g have same: "group_gross ?out k = group_gross df k"
      by (simp add: group_gross_def)
    from k obtain r0 where "r0 \<in> set df" "PrimaryKey r0 = Some k"
      by (auto simp: set_group_keys)
    with uniform obtain x where x: "group_gross df k = Some x"
      by blast
    from conservation [OF k x] same x show ?thesis
      by (simp add: within_tolerance_def)
  qed
  then have "imbalanced_keys ?out = []"
    by (simp add: imbalanced_keys_def filter_empty_conv)
  then have "balance_stage ?out = Inr (final_sort ?out)"
    by (simp add: balance_stage_Inr balancing_records_def)
  moreover have "final_sort ?out = ?out"
    unfolding final_sort_def by (intro sort_key_id_if_sorted sorted_sort_key)
  ultimately show ?thesis by simp
qed

text \<open>
  Claim C7, as the code has it. On a table in which the total of every group is within
  0.001 of the group's GrossAOV (equal to it, in particular), the balancing stage makes
  no balancing record and returns the table, sorted. The stage's own output is such a
  table when every row of a group carries the same GrossAOV and that value is not
  missing; on it the stage returns its input unchanged.
\<close>

theorem balancing_idempotent:
  "((\<forall>k\<in>set (group_keys df). within_tolerance (group_gross df k) (group_total df k)) \<longrightarrow>
      new_records df = Inr [] \<and> balance_stage df = Inr (final_sort df)) \<and>
   ((\<forall>r\<in>set df. \<forall>k. PrimaryKey r = Some k \<longrightarrow> GrossAOV r = group_gross df k \<and> group_gross df k \<noteq> None) \<longrightarrow>
      (\<forall>out. balance_stage df = Inr out \<longrightarrow> balance_stage out = Inr out))"
proof (intro conjI impI allI)
  assume "\<forall>k\<in>set (group_keys df). within_tolerance (group_gross df k) (group_total df k)"
  then have "imbalanced_keys df = []"
    by (simp add: imbalanced_keys_def filter_empty_conv)
  then show "new_records df = Inr []" "balance_stage df = Inr (final_sort df)"
    by (simp_all add: new_records_Inr balance_stage_Inr balancing_records_def)
next
  fix out
  assume "\<forall>r\<in>set df. \<forall>k. PrimaryKey r = Some k \<longrightarrow> GrossAOV r = group_gross df k \<and> group_gross df k \<noteq> None"
    and "balance_stage df = Inr out"
  then show "balance_stage out = Inr out"
    using uniform_output [of df] by (simp add: balance_stage_Inr)
qed

text \<open>The theorem on the output of the scenario, and on its two priced rows.\<close>

theorem balancing_idempotent_witness:
  "group_keys [priced_burger, priced_fries, scenario_balancing] = [''A''] \<and>
   within_tolerance (group_gross [priced_burger, priced_fries, scenario_balancing] ''A'')
     (group_total [priced_burger, priced_fries, scenario_balancing] ''A'') \<and>
   new_records [priced_burger, priced_fries, scenario_balancing] = Inr [] \<and>
   balance_stage [priced_burger, priced_fries, scenario_balancing] =
     Inr (final_sort [priced_burger, priced_fries, scenario_balancing]) \<and>
   map PrimaryKey [priced_burger, priced_fries] = [Some ''A'', Some ''A''] \<and>
   map GrossAOV [priced_burger, priced_fries] = [Some 10, Some 10] \<and>
   group_gross [priced_burger, priced_fries] ''A'' = Some 10 \<and>
   balance_stage [priced_burger, priced_fries] = Inr [priced_burger, priced_fries, scenario_balancing] \<and>
   balance_stage [priced_burger, priced_fries, scenario_balancing] = Inr [priced_burger, priced_fries, scenario_balancing]"
proof -
  let ?out = "[priced_burger, priced_fries, scenario_balancing]"
  have tol: "within_tolerance (group_gross ?out ''A'') (group_total ?out ''A'')"
    by (simp add: scenario_output_total scenario_output_gross within_tolerance_def)
  then have hyp1: "\<forall>k\<in>set (group_keys ?out). within_tolerance (group_gross ?out k) (group_total ?out k)"
    by (simp add: scenario_output_keys)
  have pk: "PrimaryKey priced_burger = Some ''A''" "PrimaryKey priced_fries = Some ''A''"
    "GrossAOV priced_burger = Some 10" "GrossAOV priced_fries = Some 10"
    by (simp_all add: example_rows)
  have hyp2: "\<forall>r\<in>set [priced_burger, priced_fries]. \<forall>k. PrimaryKey r = Some k \<longrightarrow>
      GrossAOV r = group_gross [priced_burger, priced_fries] k \<and> group_gross [priced_burger, priced_fries] k \<noteq> None"
    by (simp add: pk scenario_gross)
  from balancing_idempotent [of ?out] hyp1
  have a: "new_records ?out = Inr [] \<and> balance_stage ?out = Inr (final_sort ?out)"
    by blast
  from balancing_idempotent [of "[priced_burger, priced_fries]"] hyp2 scenario_balanced
  have b: "balance_stage ?out = Inr ?out"
    by blast
  from tol a b scenario_balanced scenario_output_keys scenario_gross pk show ?thesis
    by simp
qed

text \<open>
  Claim C7 as stated, with the stage's own output always balanced, fails where the
  GrossAOV of a group is missing: run on its own output, the stage appends a second
  balancing record.
\<close>

theorem balancing_idempotent_counterexample:
  "balance_stage [no_gross_burger] = Inr [no_gross_burger, no_gross_balancing] \<and>
   balance_stage [no_gross_burger, no_gross_balancing] =
     Inr [no_gross_burger, no_gross_balancing, no_gross_balancing]"
proof -
  have first: "balance_stage [no_gross_burger] = Inr [no_gross_burger, no_gross_balancing]"
    unfolding balance_stage_Inr no_gross_records final_sort_def
    by (simp add: scenario_final_keys)
  have total: "group_total [no_gross_burger, no_gross_balancing] ''A'' = 10"
    by (simp add: group_total_def group_rows_def nansum_def example_rows)
  have gross: "group_gross [no_gross_burger, no_gross_balancing] ''A'' = None"
    by (simp add: group_gross_def group_rows_def example_rows)
  have keys: "group_keys [no_gross_burger, no_gross_balancing] = [''A'']"
    by (simp add: group_keys_def List.map_filter_simps example_rows)
  have imb: "imbalanced_keys [no_gross_burger, no_gross_balancing] = [''A'']"
    unfolding imbalanced_keys_def keys
    by (simp add: total gross within_tolerance_def)
  have recs: "balancing_records [no_gross_burger, no_gross_balancing] = [no_gross_balancing]"
    unfolding balancing_records_def imb list.map cons_of_def total gross
    by (simp add: balancing_record_def group_rows_def example_rows)
  have "balance_stage [no_gross_burger, no_gross_balancing] =
     Inr [no_gross_burger, no_gross_balancing, no_gross_balancing]"
    unfolding balance_stage_Inr recs final_sort_def
    by (simp add: scenario_final_keys)
  with first show ?thesis by simp
qed

subsection \<open>The final ordering\<close>

lemma map_sort_key: "map f (sort_key f xs) = sort (map f xs)"
proof -
  have "sort (map f xs) = map f (sort_key f xs)"
    by (rule properties_for_sort) (simp_all add: sorted_sort_key)
  then show ?thesis by simp
qed

lemma reconcile_sorted: "reconcile clean df = Inr out \<Longrightarrow> sorted (map final_key out)"
  by (auto simp: reconcile_Inr final_sort_def sorted_sort_key)

lemma mset_concat_map_cong:
  "mset xs = mset ys \<Longrightarrow> mset (concat (map f xs)) = mset (concat (map f ys))"
proof -
  assume eq: "mset xs = mset ys"
  have "mset (concat (map f zs)) = sum_mset (image_mset (\<lambda>x. mset (f x)) (mset zs))" for zs
    by (induction zs) simp_all
  with eq show ?thesis by simp
qed

lemma priced_filtered_mset:
  assumes "mset df = mset df'"
  shows "mset (price_stage (filter_stage clean df)) = mset (price_stage (filter_stage clean df'))"
proof -
  from assms have "mset (concat (map (merge_orders clean) df)) = mset (concat (map (merge_orders clean) df'))"
    by (rule mset_concat_map_cong)
  then have "mset (filter_stage clean df) = mset (filter_stage clean df')"
    by (simp add: filter_stage_def)
  then show ?thesis
    by (simp add: price_stage_def)
qed

lemma priced_filtered_keys:
  assumes "r' \<in> set (price_stage (filter_stage clean df))"
  shows "\<exists>r\<in>set df. PrimaryKey r' = PrimaryKey r \<and> GrossAOV r' = GrossAOV r \<and>
     OrderPlacedDate r' = OrderPlacedDate r \<and> OrderPlacedTime r' = OrderPlacedTime r"
proof -
  from assms obtain r1 where r1: "r1 \<in> set (filter_stage clean df)"
    and eq1: "PrimaryKey r' = PrimaryKey r1" "GrossAOV r' = GrossAOV r1"
      "OrderPlacedDate r' = OrderPlacedDate r1" "OrderPlacedTime r' = OrderPlacedTime r1"
    by (auto simp: price_stage_def)
  from filter_stage_rows [OF r1] obtain r where "r \<in> set df" "r1 = r\<lparr>TempColumn := Some ''Orders''\<rparr>"
    by blast
  with eq1 show ?thesis by auto
qed

lemma group_keys_cong:
  "set xs = set ys \<Longrightarrow> group_keys xs = group_keys ys"
proof -
  assume "set xs = set ys"
  then have "set (group_keys xs) = set (group_keys ys)"
    by (simp add: set_group_keys)
  moreover have "sorted (group_keys xs)" "sorted (group_keys ys)"
    by (simp_all add: group_keys_def)
  ultimately show ?thesis
    using distinct_group_keys by (metis sorted_distinct_set_unique)
qed

lemma group_total_mset: "mset xs = mset ys \<Longrightarrow> group_total xs k = group_total ys k"
proof -
  assume "mset xs = mset ys"
  then have "mset (map TotalPrice (group_rows xs k)) = mset (map TotalPrice (group_rows ys k))"
    by (simp add: group_rows_def)
  then show ?thesis
    unfolding group_total_def by (rule nansum_mset)
qed

lemma hd_group_rows: "group_rows df k \<noteq> [] \<Longrightarrow> hd (group_rows df k) \<in> set df \<and> PrimaryKey (hd (group_rows df k)) = Some k"
proof -
  assume "group_rows df k \<noteq> []"
  then have "hd (group_rows df k) \<in> set (group_rows df k)" by (rule hd_in_set)
  then show ?thesis by (simp add: group_rows_def)
qed

lemma final_key_balancing_record:
  "PrimaryKey m = Some k \<Longrightarrow> final_key (balancing_record m (cons_of df k)) = final_key m"
  by (simp add: final_key_def balancing_record_def cons_of_def)

lemma uniform_key_sequence:
  assumes perm: "mset P = mset P'"
    and uniform: "\<forall>r\<in>set P. \<forall>s\<in>set P. PrimaryKey r = PrimaryKey s \<longrightarrow> PrimaryKey r \<noteq> None \<longrightarrow>
        GrossAOV r = GrossAOV s \<and> final_key r = final_key s"
  shows "map final_key (final_sort (P @ balancing_records P)) =
     map final_key (final_sort (P' @ balancing_records P'))"
proof -
  from perm have sets: "set P = set P'" by (rule mset_eq_setD)
  then have keys: "group_keys P = group_keys P'" by (rule group_keys_cong)
  have totals: "group_total P k = group_total P' k" for k
    using perm by (rule group_total_mset)
  have heads: "GrossAOV (hd (group_rows P k)) = GrossAOV (hd (group_rows P' k)) \<and>
      final_key (hd (group_rows P k)) = final_key (hd (group_rows P' k))"
    if k: "k \<in> set (group_keys P)" for k
  proof -
    from k have ne: "group_rows P k \<noteq> []" by (rule group_rows_nonempty)
    from k keys have "k \<in> set (group_keys P')" by simp
    then have ne': "group_rows P' k \<noteq> []" by (rule group_rows_nonempty)
    from hd_group_rows [OF ne] have a: "hd (group_rows P k) \<in> set P"
      and ak: "PrimaryKey (hd (group_rows P k)) = Some k" by simp_all
    from hd_group_rows [OF ne'] sets have b: "hd (group_rows P' k) \<in> set P"
      and bk: "PrimaryKey (hd (group_rows P' k)) = Some k" by simp_all
    from uniform a b have "PrimaryKey (hd (group_rows P k)) = PrimaryKey (hd (group_rows P' k)) \<longrightarrow>
        PrimaryKey (hd (group_rows P k)) \<noteq> None \<longrightarrow>
        GrossAOV (hd (group_rows P k)) = GrossAOV (hd (group_rows P' k)) \<and>
        final_key (hd (group_rows P k)) = final_key (hd (group_rows P' k))"
      by blast
    then show ?thesis by (simp only: ak bk) simp
  qed
  have gross: "group_gross P k = group_gross P' k" if k: "k \<in> set (group_keys P)" for k
  proof -
    from k have ne: "group_rows P k \<noteq> []" by (rule group_rows_nonempty)
    from k keys have "k \<in> set (group_keys P')" by simp
    then have ne': "group_rows P' k \<noteq> []" by (rule group_rows_nonempty)
    from heads [OF k] have "GrossAOV (hd (group_rows P k)) = GrossAOV (hd (group_rows P' k))" by (rule conjunct1)
    then show ?thesis
      by (simp only: group_gross_hd [OF ne] group_gross_hd [OF ne'])
  qed
  have imb: "imbalanced_keys P = imbalanced_keys P'"
  proof -
    have "filter (\<lambda>k. \<not> within_tolerance (group_gross P k) (group_total P k)) (group_keys P) =
        filter (\<lambda>k. \<not> within_tolerance (group_gross P' k) (group_total P' k)) (group_keys P)"
    proof (rule filter_cong)
      show "group_keys P = group_keys P" by (rule refl)
    next
      fix k
      assume "k \<in> set (group_keys P)"
      then have "group_gross P k = group_gross P' k" by (rule gross)
      then show "(\<not> within_tolerance (group_gross P k) (group_total P k)) =
          (\<not> within_tolerance (group_gross P' k) (group_total P' k))"
        by (simp only: totals [of k])
    qed
    then show ?thesis
      by (simp only: imbalanced_keys_def keys)
  qed
  have rec_keys: "final_key (balancing_record (hd (group_rows P k)) (cons_of P k)) =
      final_key (balancing_record (hd (group_rows P' k)) (cons_of P' k))"
    if "k \<in> set (imbalanced_keys P)" for k
  proof -
    from that have k: "k \<in> set (group_keys P)"
      using imbalanced_keys_subset by blast
    then have ne: "group_rows P k \<noteq> []" by (rule group_rows_nonempty)
    from k keys have "k \<in> set (group_keys P')" by simp
    then have ne': "group_rows P' k \<noteq> []" by (rule group_rows_nonempty)
    from hd_group_rows [OF ne] have ak: "PrimaryKey (hd (group_rows P k)) = Some k" by simp
    from hd_group_rows [OF ne'] have bk: "PrimaryKey (hd (group_rows P' k)) = Some k" by simp
    from heads [OF k] have "final_key (hd (group_rows P k)) = final_key (hd (group_rows P' k))"
      by (rule conjunct2)
    then show ?thesis
      by (simp only: final_key_balancing_record [OF ak] final_key_balancing_record [OF bk])
  qed
  have recs: "map final_key (balancing_records P) = map final_key (balancing_records P')"
  proof -
    have "map (\<lambda>k. final_key (balancing_record (hd (group_rows P k)) (cons_of P k))) (imbalanced_keys P) =
        map (\<lambda>k. final_key (balancing_record (hd (group_rows P' k)) (cons_of P' k))) (imbalanced_keys P)"
      by (rule map_cong) (simp_all only: rec_keys)
    then show ?thesis
      by (simp only: balancing_records_def imb [symmetric] map_map comp_def)
  qed
  from perm have "mset (map final_key P) = mset (map final_key P')"
    by (metis mset_map)
  with recs have "mset (map final_key (P @ balancing_records P)) =
      mset (map final_key (P' @ balancing_records P'))"
    by (simp only: map_append mset_append)
  then have "sort (map final_key (P @ balancing_records P)) =
      sort (map final_key (P' @ balancing_records P'))"
    by (intro properties_for_sort) simp_all
  then show ?thesis
    by (simp only: final_sort_def map_sort_key)
qed

lemma reconcile_key_sequence:
  assumes perm: "mset df = mset df'"
    and uniform: "\<forall>r\<in>set df. \<forall>s\<in>set df. PrimaryKey r = PrimaryKey s \<longrightarrow> PrimaryKey r \<noteq> None \<longrightarrow>
        GrossAOV r = GrossAOV s \<and> OrderPlacedDate r = OrderPlacedDate s \<and>
        OrderPlacedTime r = OrderPlacedTime s"
    and out: "reconcile clean df = Inr out" and out': "reconcile clean df' = Inr out'"
  shows "map final_key out = map final_key out'"
proof -
  let ?P = "price_stage (filter_stage clean df)"
  let ?P' = "price_stage (filter_stage clean df')"
  from perm have P: "mset ?P = mset ?P'" by (rule priced_filtered_mset)
  have "GrossAOV r' = GrossAOV s' \<and> final_key r' = final_key s'"
    if "r' \<in> set ?P" "s' \<in> set ?P" "PrimaryKey r' = PrimaryKey s'" "PrimaryKey r' \<noteq> None" for r' s'
  proof -
    from priced_filtered_keys [OF that(1)] obtain r where r: "r \<in> set df"
      and re: "PrimaryKey r' = PrimaryKey r" "GrossAOV r' = GrossAOV r"
        "OrderPlacedDate r' = OrderPlacedDate r" "OrderPlacedTime r' = OrderPlacedTime r"
      by blast
    from priced_filtered_keys [OF that(2)] obtain s where s: "s \<in> set df"
      and se: "PrimaryKey s' = PrimaryKey s" "GrossAOV s' = GrossAOV s"
        "OrderPlacedDate s' = OrderPlacedDate s" "OrderPlacedTime s' = OrderPlacedTime s"
      by blast
    from that(3,4) re(1) se(1) have "PrimaryKey r = PrimaryKey s" "PrimaryKey r \<noteq> None"
      by simp_all
    with uniform r s have "GrossAOV r = GrossAOV s \<and> OrderPlacedDate r = OrderPlacedDate s \<and>
        OrderPlacedTime r = OrderPlacedTime s"
      by blast
    with re se that(3) show ?thesis
      by (simp add: final_key_def)
  qed
  then have "\<forall>r\<in>set ?P. \<forall>s\<in>set ?P. PrimaryKey r = PrimaryKey s \<longrightarrow> PrimaryKey r \<noteq> None \<longrightarrow>
        GrossAOV r = GrossAOV s \<and> final_key r = final_key s"
    by blast
  with P have "map final_key (final_sort (?P @ balancing_records ?P)) =
     map final_key (final_sort (?P' @ balancing_records ?P'))"
    by (rule uniform_key_sequence)
  with out out' show ?thesis
    by (simp only: reconcile_Inr sum.inject)
qed

lemma reconcile_stable:
  "reconcile clean df = Inr out \<Longrightarrow>
   filter (\<lambda>r. final_key r = k) out =
   filter (\<lambda>r. final_key r = k)
     (price_stage (filter_stage clean df) @ balancing_records (price_stage (filter_stage clean df)))"
  by (auto simp: reconcile_Inr final_sort_def sort_key_stable)

lemmas mixed_rows = cheap_priced_fries_def cheap_balancing_def

lemma mixed_priced:
  "price_stage (filter_stage scenario_orders [tied_burger, cheap_fries]) = [tied_priced_burger, cheap_priced_fries]"
  "price_stage (filter_stage scenario_orders [cheap_fries, tied_burger]) = [cheap_priced_fries, tied_priced_burger]"
  by (simp_all add: price_stage_def filter_stage_def merge_orders_def example_rows more_rows mixed_rows)

lemma mixed_keys:
  "group_keys [tied_priced_burger, cheap_priced_fries] = [''A'']"
  "group_keys [cheap_priced_fries, tied_priced_burger] = [''A'']"
  by (simp_all add: group_keys_def List.map_filter_simps example_rows more_rows mixed_rows)

lemma mixed_totals:
  "group_total [tied_priced_burger, cheap_priced_fries] ''A'' = 13"
  "group_total [cheap_priced_fries, tied_priced_burger] ''A'' = 13"
  "group_gross [tied_priced_burger, cheap_priced_fries] ''A'' = Some 13"
  "group_gross [cheap_priced_fries, tied_priced_burger] ''A'' = Some 7"
  by (simp_all add: group_total_def group_gross_def group_rows_def nansum_def example_rows more_rows mixed_rows)

lemma mixed_imbalanced:
  "imbalanced_keys [tied_priced_burger, cheap_priced_fries] = []"
  "imbalanced_keys [cheap_priced_fries, tied_priced_burger] = [''A'']"
  unfolding imbalanced_keys_def mixed_keys
  by (simp_all add: mixed_totals within_tolerance_def)

lemma mixed_records:
  "balancing_records [tied_priced_burger, cheap_priced_fries] = []"
  "balancing_records [cheap_priced_fries, tied_priced_burger] = [cheap_balancing]"
  unfolding balancing_records_def mixed_imbalanced list.map cons_of_def mixed_totals
  by (simp_all add: balancing_record_def group_rows_def example_rows more_rows mixed_rows)

lemma mixed_final_keys:
  "final_key cheap_priced_fries = final_key tied_priced_burger"
  "final_key cheap_balancing = final_key tied_priced_burger"
  by (simp_all add: final_key_def example_rows more_rows mixed_rows)

lemma mixed_reconciled:
  "reconcile scenario_orders [tied_burger, cheap_fries] = Inr [tied_priced_burger, cheap_priced_fries]"
  "reconcile scenario_orders [cheap_fries, tied_burger] =
     Inr [cheap_priced_fries, tied_priced_burger, cheap_balancing]"
  unfolding reconcile_Inr mixed_priced mixed_records final_sort_def
  by (simp_all add: mixed_final_keys)

text \<open>
  Claim C9, as the code has it. The reconciler never fails, and for every stacking order
  its output is sorted by (OrderPlacedDate, OrderPlacedTime, PrimaryKey), missing values last. The sort
  is stable: rows with the same three values stand in the output as they stood before the
  sort, the item rows in their stacking order and the balancing records after them. Two
  stacking orders of the same item rows give the same rows before balancing, up to their
  order. The balancing records are made from the first row of each group; when all item
  rows of a key carry the same GrossAOV, date and time, the two outputs have the same
  sequence of sort keys.
\<close>

theorem final_order:
  "(\<exists>out. reconcile clean df = Inr out) \<and>
   (\<forall>out. reconcile clean df = Inr out \<longrightarrow>
      sorted (map final_key out) \<and>
      filter (\<lambda>r. final_key r = k) out =
        filter (\<lambda>r. final_key r = k)
          (price_stage (filter_stage clean df) @ balancing_records (price_stage (filter_stage clean df)))) \<and>
   (mset df = mset df' \<longrightarrow>
      mset (price_stage (filter_stage clean df)) = mset (price_stage (filter_stage clean df')) \<and>
      ((\<forall>r\<in>set df. \<forall>s\<in>set df. PrimaryKey r = PrimaryKey s \<longrightarrow> PrimaryKey r \<noteq> None \<longrightarrow>
          GrossAOV r = GrossAOV s \<and> OrderPlacedDate r = OrderPlacedDate s \<and>
          OrderPlacedTime r = OrderPlacedTime s) \<longrightarrow>
       (\<forall>out out'. reconcile clean df = Inr out \<and> reconcile clean df' = Inr out' \<longrightarrow>
          map final_key out = map final_key out')))"
  using reconcile_Inr [of clean df] reconcile_sorted [of clean df] reconcile_stable [of clean df _ k]
    priced_filtered_mset [of df df' clean] reconcile_key_sequence [of df df' clean]
  by blast

text \<open>The theorem on the two item rows of the scenario, stacked in either order.\<close>

theorem final_order_witness:
  "mset [item_burger, item_fries] = mset [item_fries, item_burger] \<and>
   map PrimaryKey [item_burger, item_fries] = [Some ''A'', Some ''A''] \<and>
   map GrossAOV [item_burger, item_fries] = [Some 10, Some 10] \<and>
   map OrderPlacedDate [item_burger, item_fries] = [Some (2023, 1, 5), Some (2023, 1, 5)] \<and>
   map OrderPlacedTime [item_burger, item_fries] = [Some 43200, Some 43200] \<and>
   reconcile scenario_orders [item_burger, item_fries] = Inr [priced_burger, priced_fries, scenario_balancing] \<and>
   sorted (map final_key [priced_burger, priced_fries, scenario_balancing]) \<and>
   (\<exists>out'. reconcile scenario_orders [item_fries, item_burger] = Inr out' \<and>
      map final_key out' = map final_key [priced_burger, priced_fries, scenario_balancing])"
proof -
  let ?df = "[item_burger, item_fries]"
  let ?df' = "[item_fries, item_burger]"
  have r: "reconcile scenario_orders ?df = Inr [priced_burger, priced_fries, scenario_balancing]"
    by (simp only: reconcile_def Let_def scenario_priced scenario_balanced)
  have m: "mset ?df = mset ?df'"
    by simp
  have cols: "map PrimaryKey ?df = [Some ''A'', Some ''A'']" "map GrossAOV ?df = [Some 10, Some 10]"
    "map OrderPlacedDate ?df = [Some (2023, 1, 5), Some (2023, 1, 5)]"
    "map OrderPlacedTime ?df = [Some 43200, Some 43200]"
    by (simp_all add: example_rows)
  then have u: "\<forall>r\<in>set ?df. \<forall>s\<in>set ?df. PrimaryKey r = PrimaryKey s \<longrightarrow> PrimaryKey r \<noteq> None \<longrightarrow>
      GrossAOV r = GrossAOV s \<and> OrderPlacedDate r = OrderPlacedDate s \<and> OrderPlacedTime r = OrderPlacedTime s"
    by simp
  obtain out' where r': "reconcile scenario_orders ?df' = Inr out'"
    by (simp add: reconcile_Inr)
  note inst = final_order [where clean = scenario_orders and df = ?df and df' = ?df'
      and k = "final_key priced_burger"]
  from inst r have s: "sorted (map final_key [priced_burger, priced_fries, scenario_balancing])"
    by blast
  from inst m u r r' have "map final_key [priced_burger, priced_fries, scenario_balancing] = map final_key out'"
    by blast
  with r' have "\<exists>out'. reconcile scenario_orders ?df' = Inr out' \<and>
      map final_key out' = map final_key [priced_burger, priced_fries, scenario_balancing]"
    by simp
  with m cols r s show ?thesis by blast
qed

text \<open>
  Claim C9 as stated fails twice. The two item rows of one order have the same date,
  time and key, and the reconciler returns them in the order in which they were stacked.
  And when the two rows carry different GrossAOV values, 13 and 7 against a total of 13,
  the stacking order decides whether the group is balanced: one order gives two rows, the
  other three, with a balancing record of -6.
\<close>

theorem final_order_counterexample:
  "mset [tied_burger, tied_fries] = mset [tied_fries, tied_burger] \<and>
   reconcile scenario_orders [tied_burger, tied_fries] = Inr [tied_priced_burger, tied_priced_fries] \<and>
   reconcile scenario_orders [tied_fries, tied_burger] = Inr [tied_priced_fries, tied_priced_burger] \<and>
   [tied_priced_burger, tied_priced_fries] \<noteq> [tied_priced_fries, tied_priced_burger] \<and>
   mset [tied_burger, cheap_fries] = mset [cheap_fries, tied_burger] \<and>
   reconcile scenario_orders [tied_burger, cheap_fries] = Inr [tied_priced_burger, cheap_priced_fries] \<and>
   reconcile scenario_orders [cheap_fries, tied_burger] =
     Inr [cheap_priced_fries, tied_priced_burger, cheap_balancing]"
  using tied_reconciled mixed_reconciled
  by (simp add: example_rows more_rows)

end
